theory Spec2Isabelle
  imports
    Main
    "HOL-Library.Word"
    "HOL-Library.Char_ord"
    "HOL-Library.List_Lexorder"
    "HOL-Library.Multiset"
    "HOL-Library.AList"
begin

section \<open>Outcomes of a Go call\<close>

text \<open>
  A Go function of this program ends in one of four ways: it returns its values, it
  returns a non-nil \<open>error\<close>, it panics (an explicit \<open>panic(...)\<close> or a run-time panic:
  index out of range, nil pointer dereference), or it calls \<open>log.Fatal\<close>, which ends the
  process. The last three are the constructors of \<open>failure\<close>; a call that can fail
  returns \<open>failure + 'a\<close>. An \<open>error\<close> value is represented by its message, and
  \<open>errors.Trace\<close>, which only attaches a stack trace, is the identity. A call that never
  returns has the value \<open>None\<close> of an option type.
\<close>

datatype failure = Error string | Panic string | Fatal string

definition isPanic :: "failure + 'a \<Rightarrow> bool" where
  "isPanic r = (case r of Inl (Panic m) \<Rightarrow> True | _ \<Rightarrow> False)"

text \<open>Indexing a Go slice: out of range is a run-time panic, here \<open>None\<close>.\<close>

definition at :: "'a list \<Rightarrow> int \<Rightarrow> 'a option" where
  "at xs i = (if 0 \<le> i \<and> i < int (length xs) then Some (xs ! nat i) else None)"

text \<open>
  \<open>strings.Join\<close> of the Go standard library: the elements with the separator between
  each two.
\<close>

fun strings_Join :: "string list \<Rightarrow> string \<Rightarrow> string" where
  "strings_Join [] sep = []"
| "strings_Join [x] sep = x"
| "strings_Join (x # y # ys) sep = x @ sep @ strings_Join (y # ys) sep"

section \<open>Data model\<close>

text \<open>
  The packages \<open>chunk\<close>, \<open>splitter\<close>, \<open>checkpoints\<close>, \<open>source\<close>, \<open>common\<close>, \<open>dbutil\<close>
  and \<open>model\<close> are imported by \<open>diff.go\<close> and \<open>validate.go\<close>; the records below hold the
  fields these two files read and write. Go's \<open>int64\<close> is \<open>64 word\<close>, compared as a signed
  number; Go's \<open>int\<close> values that index a slice or count rows are \<open>int\<close> (no count of
  rows or columns reaches \<open>2^63\<close>).
\<close>

record ChunkID =
  TableIndex :: int
  BucketIndexLeft :: int
  BucketIndexRight :: int
  ChunkIndex :: int
  ChunkCnt :: int

datatype ChunkType = Bucket | Random | Limit | Others | Empty

record Bound =
  Column :: string
  Lower :: string
  Upper :: string
  HasLower :: bool
  HasUpper :: bool

record ChunkRange =
  Index :: ChunkID
  Type :: ChunkType
  Bounds :: "Bound list"

record RangeInfo =
  ChunkRange :: ChunkRange
  IndexID :: "64 word"
  ProgressID :: string

text \<open>\<open>source.ChecksumInfo\<close>, the result of \<open>GetCountAndCrc32\<close>.\<close>

record ChecksumInfo =
  Checksum :: "64 word"
  Count :: "64 word"
  Err :: "string option"

text \<open>
  \<open>checkpoints.Node\<close>. Its \<open>State\<close> is a Go string holding one of three constants of
  the \<open>checkpoints\<close> package; \<open>ToNode\<close> leaves it unset (the empty string), which is
  \<open>UnsetState\<close> here.
\<close>

datatype NodeState = UnsetState | SuccessState | FailedState | IgnoreState

record Node =
  State :: NodeState
  NodeChunkRange :: ChunkRange
  NodeIndexID :: "64 word"

definition ToNode :: "RangeInfo \<Rightarrow> Node" where
  "ToNode r = \<lparr>State = UnsetState, NodeChunkRange = ChunkRange r, NodeIndexID = IndexID r\<rparr>"

definition GetTableIndex :: "RangeInfo \<Rightarrow> int" where
  "GetTableIndex r = TableIndex (Index (ChunkRange r))"

text \<open>\<open>ChunkDML\<close> (diff.go, lines 65-71).\<close>

record ChunkDML =
  node :: Node
  sqls :: "string list"
  rowAdd :: int
  rowDelete :: int

text \<open>
  Table metadata: \<open>model.IndexColumn\<close> (only \<open>Name.O\<close> is read), \<open>model.ColumnInfo\<close>
  (\<open>Name.O\<close> and \<open>Offset\<close>), \<open>model.IndexInfo\<close>, \<open>model.TableInfo\<close> and
  \<open>common.TableDiff\<close>. \<open>PrimaryKey\<close> is a pointer that is nil for a table without a
  primary key (\<open>processEventRows\<close> tests it), hence an option.
\<close>

record IndexColumn =
  ColName :: string

record ColumnInfo =
  Name :: string
  Offset :: int

record IndexInfo =
  ID :: "64 word"
  IdxName :: string
  Columns :: "IndexColumn list"
  Unique :: bool
  Primary :: bool

record TableInfo =
  InfoColumns :: "ColumnInfo list"
  Indices :: "IndexInfo list"

record TableDiff =
  Schema :: string
  Table :: string
  Info :: TableInfo
  PrimaryKey :: "IndexInfo option"
  ColumnMap :: "string \<rightharpoonup> ColumnInfo"
  Range' :: string
  Collation :: string

text \<open>
  \<open>dbutil.ColumnData\<close> and a row as the sources return it,
  \<open>map[string]*dbutil.ColumnData\<close>. \<open>Data\<close> is a byte slice; a nil slice and an empty
  one are both the empty string (the code only converts it with \<open>string(...)\<close>).
\<close>

record ColumnData =
  Data :: string
  IsNull :: bool

type_synonym rowMap = "string \<rightharpoonup> ColumnData"

text \<open>
  A row iterator (\<open>source.RowDataIterator\<close>) is the list of the results its successive
  \<open>Next\<close> calls give: a row, or an error. Once the list is used up \<open>Next\<close> returns
  \<open>(nil, nil)\<close>.
\<close>

type_synonym RowDataIterator = "(string + rowMap) list"

fun Next :: "RowDataIterator \<Rightarrow> string + (rowMap option \<times> RowDataIterator)" where
  "Next [] = Inr (None, [])"
| "Next (Inl e # rest) = Inl e"
| "Next (Inr row # rest) = Inr (Some row, rest)"

text \<open>
  The loops of \<open>compareRows\<close> and \<open>validateInsertAndUpdateRows\<close> start with
  \<open>if lastData == nil { lastData, err = it.Next() }\<close>.
\<close>

definition fetch :: "rowMap option \<Rightarrow> RowDataIterator \<Rightarrow> string + (rowMap option \<times> RowDataIterator)" where
  "fetch lastData it = (case lastData of None \<Rightarrow> Next it | Some row \<Rightarrow> Inr (Some row, it))"

section \<open>The checksum comparator\<close>

text \<open>
  \<open>compareChecksumAndGetCount\<close> (diff.go, lines 982-1007). The two
  \<open>GetCountAndCrc32\<close> calls run in parallel on different sources and are joined by a
  wait group before either result is read, so the function depends only on the two
  \<open>ChecksumInfo\<close> values. The result is Go's triple \<open>(bool, int64, error)\<close>.
\<close>

definition compareChecksumAndGetCount ::
  "ChecksumInfo \<Rightarrow> ChecksumInfo \<Rightarrow> bool \<times> 64 word \<times> string option" where
  "compareChecksumAndGetCount upstreamInfo downstreamInfo =
     (case Err upstreamInfo of
        Some e \<Rightarrow> (False, -1, Some e)
      | None \<Rightarrow>
          (case Err downstreamInfo of
             Some e \<Rightarrow> (False, -1, Some e)
           | None \<Rightarrow>
               if Count upstreamInfo = Count downstreamInfo
                  \<and> Checksum upstreamInfo = Checksum downstreamInfo
               then (True, Count upstreamInfo, None)
               else (False, Count upstreamInfo, None)))"

section \<open>The IN-query builder of continuous validation\<close>

text \<open>
  \<open>Cond\<close> and \<open>Cond.GetWhere\<close> (continuous/validate.go, lines 23-55). The string
  builder is the accumulated string; the loop over \<open>range c.PkValues\<close> is a fold over
  the indices.
\<close>

record Cond =
  CondTable :: TableDiff
  PkValues :: "string list list"




text \<open>
  Concrete tables for the examples: \<open>t(id PRIMARY KEY, v)\<close>, the same table with no
  primary key, and with a primary-key index that lists no column.
\<close>

definition idIndex :: IndexInfo where
  "idIndex = \<lparr>ID = 1, IdxName = ''PRIMARY'', Columns = [\<lparr>ColName = ''id''\<rparr>],
               Unique = True, Primary = True\<rparr>"

definition idvInfo :: TableInfo where
  "idvInfo = \<lparr>InfoColumns = [\<lparr>Name = ''id'', Offset = 0\<rparr>, \<lparr>Name = ''v'', Offset = 1\<rparr>],
              Indices = [idIndex]\<rparr>"

definition idvTable :: TableDiff where
  "idvTable = \<lparr>Schema = ''db'', Table = ''t'', Info = idvInfo, PrimaryKey = Some idIndex,
     ColumnMap = [''id'' \<mapsto> \<lparr>Name = ''id'', Offset = 0\<rparr>, ''v'' \<mapsto> \<lparr>Name = ''v'', Offset = 1\<rparr>],
     Range' = ''TRUE'', Collation = ''''\<rparr>"



section \<open>Continuous validation: row changes and the binlog row iterator\<close>

text \<open>
  A column value of a binlog row is a Go \<open>interface{}\<close>. The code only tests it for nil
  and prints it with \<open>fmt.Sprintf("%v", _)\<close>, so a value is \<open>None\<close> for nil and
  otherwise \<open>Some\<close> of its \<open>%v\<close> rendering; \<open>Sprintf_v\<close> is \<open>fmt.Sprintf("%v", _)\<close>.
\<close>

type_synonym val = "string option"

definition Sprintf_v :: "val \<Rightarrow> string" where
  "Sprintf_v v = (case v of None \<Rightarrow> ''<nil>'' | Some s \<Rightarrow> s)"

text \<open>\<open>rowChangeType\<close>, \<open>rowChange\<close> and \<open>tableChange\<close> (diff.go, lines 328-348). A Go map
  with string keys is an association list with distinct keys, read with \<open>map_of\<close> and
  written with \<open>AList.update\<close>.\<close>

datatype rowChangeType = rowInvalidChange | rowInsert | rowDeleted | rowUpdated

record rowChange =
  pk :: "string list"
  data :: "val list"
  theType :: rowChangeType
  lastMeetTs :: "64 word"

record tableChange =
  table :: TableDiff
  rows :: "(string \<times> rowChange) list"
  minTs :: "64 word"

text \<open>
  The comparison closure of \<open>getRowChangeIterator\<close> (diff.go, lines 1040-1048), on the
  two \<open>pk\<close> slices: the loop runs over the indices of \<open>left.pk\<close> and reads
  \<open>right.pk[idx]\<close>, which panics when \<open>right.pk\<close> is shorter. Go's \<open><\<close> on strings is the
  byte-wise lexicographic order, which is \<open><\<close> on \<open>string\<close> here.
\<close>

fun lessPk :: "string list \<Rightarrow> string list \<Rightarrow> failure + bool" where
  "lessPk [] right = Inr False"
| "lessPk (l # ls) [] = Inl (Panic ''index out of range'')"
| "lessPk (l # ls) (r # rs) = (if l \<noteq> r then Inr (l < r) else lessPk ls rs)"

definition lessRow :: "rowChange \<Rightarrow> rowChange \<Rightarrow> failure + bool" where
  "lessRow left right = lessPk (pk left) (pk right)"

text \<open>
  \<open>sort.Slice\<close> belongs to the Go standard library, whose code is not in these files: it
  is a parameter, a function from the \<open>less\<close> closure and the slice to the slice it
  leaves, or to the panic it ends with. What package \<open>sort\<close> documents of it is
  \<open>sortContract\<close>: for a \<open>less\<close> that does not panic on the elements of the slice and
  describes a transitive ordering of them (if \<open>less\<close> holds of \<open>x\<close>, \<open>y\<close> and of \<open>y\<close>, \<open>z\<close>
  it holds of \<open>x\<close>, \<open>z\<close>, and the same for \<open>less\<close> failing; no element is less than
  itself), the slice is left as a permutation of its elements in which no element is
  less than an earlier one. The order of equal elements is not promised.
\<close>

type_synonym 'a sorter = "('a \<Rightarrow> 'a \<Rightarrow> failure + bool) \<Rightarrow> 'a list \<Rightarrow> failure + 'a list"

definition transitiveOrdering :: "('a \<Rightarrow> 'a \<Rightarrow> bool) \<Rightarrow> 'a set \<Rightarrow> bool" where
  "transitiveOrdering lt A =
     ((\<forall>x\<in>A. \<not> lt x x)
      \<and> (\<forall>x\<in>A. \<forall>y\<in>A. \<forall>z\<in>A. lt x y \<and> lt y z \<longrightarrow> lt x z)
      \<and> (\<forall>x\<in>A. \<forall>y\<in>A. \<forall>z\<in>A. \<not> lt x y \<and> \<not> lt y z \<longrightarrow> \<not> lt x z))"

definition sortContract :: "'a sorter \<Rightarrow> bool" where
  "sortContract srt =
     (\<forall>lessFn lt xs.
        (\<forall>x\<in>set xs. \<forall>y\<in>set xs. lessFn x y = Inr (lt x y)) \<and> transitiveOrdering lt (set xs)
        \<longrightarrow> (\<exists>ys. srt lessFn xs = Inr ys \<and> mset ys = mset xs
                  \<and> sorted_wrt (\<lambda>a b. \<not> lt b a) ys))"

text \<open>
  An example of a sorting function that meets the contract, for the examples below: an
  insertion sort that moves each element of the slice, from the second on, to the left
  while \<open>less\<close> holds of it and its left neighbour, and ends with the panic of \<open>less\<close>
  if a call of \<open>less\<close> panics. \<open>sink\<close> takes the part of the slice already in order,
  last element first, and returns it with the new element in its place. The slices of
  the examples have one or two elements: for one element \<open>less\<close> is not called, for two
  it is called once, on the second element and the first, which change places if it
  holds.
\<close>

fun sink :: "('a \<Rightarrow> 'a \<Rightarrow> failure + bool) \<Rightarrow> 'a \<Rightarrow> 'a list \<Rightarrow> failure + 'a list" where
  "sink lessFn x [] = Inr [x]"
| "sink lessFn x (y # before) =
     (case lessFn x y of
        Inl f \<Rightarrow> Inl f
      | Inr True \<Rightarrow>
          (case sink lessFn x before of Inl f \<Rightarrow> Inl f | Inr zs \<Rightarrow> Inr (y # zs))
      | Inr False \<Rightarrow> Inr (x # y # before))"

fun sinkAll :: "('a \<Rightarrow> 'a \<Rightarrow> failure + bool) \<Rightarrow> 'a list \<Rightarrow> 'a list \<Rightarrow> failure + 'a list" where
  "sinkAll lessFn placed [] = Inr (rev placed)"
| "sinkAll lessFn placed (x # xs) =
     (case sink lessFn x placed of Inl f \<Rightarrow> Inl f | Inr placed' \<Rightarrow> sinkAll lessFn placed' xs)"

definition exampleSort :: "'a sorter" where
  "exampleSort lessFn xs = sinkAll lessFn [] xs"

text \<open>
  The body of the loop over the sorted rows (diff.go, lines 1053-1066): one
  \<open>ColumnData\<close> per column of \<open>table.Info.Columns\<close>, read from \<open>r.data[c.Offset]\<close>
  (a panic when the offset is out of range).
\<close>

definition colDataOf :: "val \<Rightarrow> ColumnData" where
  "colDataOf v = \<lparr>Data = (case v of None \<Rightarrow> [] | Some s \<Rightarrow> s), IsNull = (v = None)\<rparr>"

fun fillColMap :: "val list \<Rightarrow> ColumnInfo list \<Rightarrow> rowMap \<Rightarrow> failure + rowMap" where
  "fillColMap d [] colMap = Inr colMap"
| "fillColMap d (c # cs) colMap =
     (case at d (Offset c) of
        None \<Rightarrow> Inl (Panic ''index out of range'')
      | Some v \<Rightarrow> fillColMap d cs (colMap(Name c \<mapsto> colDataOf v)))"

definition rowOf :: "TableDiff \<Rightarrow> rowChange \<Rightarrow> failure + rowMap" where
  "rowOf t r = fillColMap (data r) (InfoColumns (Info t)) Map.empty"

fun buildRows :: "TableDiff \<Rightarrow> rowChange list \<Rightarrow> failure + rowMap list" where
  "buildRows t [] = Inr []"
| "buildRows t (r # rs) =
     (case rowOf t r of
        Inl f \<Rightarrow> Inl f
      | Inr colMap \<Rightarrow>
          (case buildRows t rs of Inl f \<Rightarrow> Inl f | Inr ms \<Rightarrow> Inr (colMap # ms)))"

text \<open>
  \<open>getRowChangeIterator\<close> (diff.go, lines 1039-1068), with \<open>sort.Slice\<close> as its first
  argument. The result is the \<open>Rows\<close> of the \<open>SimpleRowsIterator\<close> it returns (\<open>Idx\<close> is
  0 and the error is always nil).
\<close>

definition getRowChangeIterator ::
  "rowChange sorter \<Rightarrow> TableDiff \<Rightarrow> rowChange list \<Rightarrow> failure + rowMap list" where
  "getRowChangeIterator sort_Slice t rs =
     (case sort_Slice lessRow rs of Inl f \<Rightarrow> Inl f | Inr sorted_rows \<Rightarrow> buildRows t sorted_rows)"

text \<open>Two inserted rows of \<open>t(id, v)\<close>, with the primary keys 9 and 10.\<close>

definition row9 :: rowChange where
  "row9 = \<lparr>pk = [''9''], data = [Some ''9'', Some ''a''], theType = rowInsert, lastMeetTs = 100\<rparr>"

definition row10 :: rowChange where
  "row10 = \<lparr>pk = [''10''], data = [Some ''10'', None], theType = rowInsert, lastMeetTs = 101\<rparr>"

text \<open>
  A row change whose \<open>data\<close> has one value for the two columns of \<open>t(id, v)\<close>, and two
  row changes whose \<open>pk\<close> slices have different lengths.
\<close>

definition shortRow :: rowChange where
  "shortRow = \<lparr>pk = [''9''], data = [Some ''9''], theType = rowInsert, lastMeetTs = 100\<rparr>"

definition onePk :: rowChange where
  "onePk = \<lparr>pk = [''9''], data = [Some ''9'', Some ''a''], theType = rowInsert, lastMeetTs = 100\<rparr>"

definition twoPk :: rowChange where
  "twoPk = \<lparr>pk = [''9'', ''1''], data = [Some ''9'', Some ''a''], theType = rowInsert,
             lastMeetTs = 100\<rparr>"

text \<open>The rows \<open>(9, a)\<close> and \<open>(10, NULL)\<close> of \<open>t(id, v)\<close> as a source returns them.\<close>

definition rowNine :: rowMap where
  "rowNine = [''id'' \<mapsto> \<lparr>Data = ''9'', IsNull = False\<rparr>, ''v'' \<mapsto> \<lparr>Data = ''a'', IsNull = False\<rparr>]"

definition rowTen :: rowMap where
  "rowTen = [''id'' \<mapsto> \<lparr>Data = ''10'', IsNull = False\<rparr>, ''v'' \<mapsto> \<lparr>Data = [], IsNull = True\<rparr>]"

section \<open>Continuous validation: the change accumulator\<close>

text \<open>
  The binlog event types \<open>getRowChangeType\<close> tells apart (constants of the
  \<open>replication\<close> package); every other type is \<open>OTHER_EVENT\<close>.
\<close>

datatype EventType =
    WRITE_ROWS_EVENTv0 | WRITE_ROWS_EVENTv1 | WRITE_ROWS_EVENTv2
  | UPDATE_ROWS_EVENTv0 | UPDATE_ROWS_EVENTv1 | UPDATE_ROWS_EVENTv2
  | DELETE_ROWS_EVENTv0 | DELETE_ROWS_EVENTv1 | DELETE_ROWS_EVENTv2
  | OTHER_EVENT

fun getRowChangeType :: "EventType \<Rightarrow> rowChangeType" where
  "getRowChangeType WRITE_ROWS_EVENTv0 = rowInsert"
| "getRowChangeType WRITE_ROWS_EVENTv1 = rowInsert"
| "getRowChangeType WRITE_ROWS_EVENTv2 = rowInsert"
| "getRowChangeType UPDATE_ROWS_EVENTv0 = rowUpdated"
| "getRowChangeType UPDATE_ROWS_EVENTv1 = rowUpdated"
| "getRowChangeType UPDATE_ROWS_EVENTv2 = rowUpdated"
| "getRowChangeType DELETE_ROWS_EVENTv0 = rowDeleted"
| "getRowChangeType DELETE_ROWS_EVENTv1 = rowDeleted"
| "getRowChangeType DELETE_ROWS_EVENTv2 = rowDeleted"
| "getRowChangeType OTHER_EVENT = rowInvalidChange"

text \<open>
  \<open>replication.EventHeader\<close> and \<open>replication.RowsEvent\<close>, with the fields
  \<open>processEventRows\<close> reads. \<open>Timestamp\<close> is a \<open>uint32\<close>.
\<close>

record EventHeader =
  EventType :: EventType
  Timestamp :: "32 word"

record RowsEvent =
  EvSchema :: string
  EvTable :: string
  SkippedColumns :: "int list list"
  Rows :: "val list list"

text \<open>
  The fields of \<open>Diff\<close> that \<open>processEventRows\<close> reads and writes.
  \<open>changeEventCount\<close> is a slice indexed by the change type (0 to 3; \<open>NewDiff\<close> makes
  it of length 4). \<open>pendingChangeCh\<close> is
  the list of the batches sent on the channel so far; the validation timer, which only
  decides when an idle accumulator is flushed, is left out.
\<close>

record DiffState =
  accumulatedChanges :: "(string \<times> tableChange) list"
  changeEventCount :: "int list"
  pendingRowCnt :: int
  pendingChangeCh :: "(string \<times> tableChange) list list"

definition batchRowCount :: int where
  "batchRowCount = 200"

definition changeTypeIndex :: "rowChangeType \<Rightarrow> nat" where
  "changeTypeIndex t = (case t of rowInvalidChange \<Rightarrow> 0 | rowInsert \<Rightarrow> 1
                          | rowDeleted \<Rightarrow> 2 | rowUpdated \<Rightarrow> 3)"

text \<open>\<open>getRowCount\<close> (diff.go, lines 481-487).\<close>

definition getRowCount :: "(string \<times> tableChange) list \<Rightarrow> int" where
  "getRowCount c = (\<Sum>v\<leftarrow>map snd c. int (length (rows v)))"

text \<open>
  Lines 518-521: \<open>pkIndices[i] = table.ColumnMap[col.Name.O].Offset\<close>, the offset of
  each primary-key column among the columns of the table. A primary-key column
  missing from \<open>ColumnMap\<close> is a nil pointer dereference.
\<close>

fun pkIndicesOf :: "TableDiff \<Rightarrow> IndexColumn list \<Rightarrow> failure + int list" where
  "pkIndicesOf t [] = Inr []"
| "pkIndicesOf t (col # cols) =
     (case ColumnMap t (ColName col) of
        None \<Rightarrow> Inl (Panic ''nil pointer dereference'')
      | Some ci \<Rightarrow>
          (case pkIndicesOf t cols of Inl f \<Rightarrow> Inl f | Inr idxs \<Rightarrow> Inr (Offset ci # idxs)))"

text \<open>
  Lines 530-533: \<open>pkValue := make([]string, len(pk.Columns))\<close>, then
  \<open>for _, idx := range pkIndices { pkValue[idx] = fmt.Sprintf("%v", row[idx]) }\<close>.
  The index into \<open>pkValue\<close> is the column's offset in the table, as in the source; both
  \<open>row[idx]\<close> and \<open>pkValue[idx]\<close> panic out of range.
\<close>

fun fillPkValue :: "val list \<Rightarrow> int list \<Rightarrow> string list \<Rightarrow> failure + string list" where
  "fillPkValue row [] pkValue = Inr pkValue"
| "fillPkValue row (idx # idxs) pkValue =
     (case at row idx of
        None \<Rightarrow> Inl (Panic ''index out of range'')
      | Some v \<Rightarrow>
          if 0 \<le> idx \<and> idx < int (length pkValue)
          then fillPkValue row idxs (pkValue[nat idx := Sprintf_v v])
          else Inl (Panic ''index out of range''))"

text \<open>
  One iteration of the loop over the rows of the event (lines 529-565), for the row
  \<open>row\<close>. The local \<open>change\<close> always is the entry of \<open>fullTableName\<close> in
  \<open>accumulatedChanges\<close> (nil when there is none), so it is read from there; the local
  \<open>rowCount\<close> is passed along.
\<close>

definition accumulateRow ::
  "rowChangeType \<Rightarrow> 64 word \<Rightarrow> TableDiff \<Rightarrow> string \<Rightarrow> int list \<Rightarrow> nat \<Rightarrow> val list
     \<Rightarrow> int \<times> DiffState \<Rightarrow> failure + (int \<times> DiffState)" where
  "accumulateRow changeType ts t fullTableName pkIndices pkLen row rs =
     (case rs of (rowCount, st) \<Rightarrow>
      (case fillPkValue row pkIndices (replicate pkLen []) of
         Inl f \<Rightarrow> Inl f
       | Inr pkValue \<Rightarrow>
           let change = (case map_of (accumulatedChanges st) fullTableName of
                           None \<Rightarrow> \<lparr>table = t, rows = [], minTs = 0\<rparr>
                         | Some c \<Rightarrow> c);
               key = strings_Join pkValue ''-'';
               ok = (map_of (rows change) key \<noteq> None);
               v = (case map_of (rows change) key of
                      None \<Rightarrow> \<lparr>pk = pkValue, data = [], theType = rowInvalidChange, lastMeetTs = 0\<rparr>
                    | Some v0 \<Rightarrow> v0);
               v' = v\<lparr>data := row, theType := changeType, lastMeetTs := ts\<rparr>;
               change' = change\<lparr>rows := AList.update key v' (rows change)\<rparr>;
               acc' = AList.update fullTableName change' (accumulatedChanges st);
               rowCount' = (if ok then rowCount else rowCount + 1);
               st' = st\<lparr>accumulatedChanges := acc',
                        pendingRowCnt := (if ok then pendingRowCnt st else pendingRowCnt st + 1)\<rparr>
           in if rowCount' \<ge> batchRowCount
              then Inr (0, st'\<lparr>pendingChangeCh := pendingChangeCh st' @ [acc'],
                               accumulatedChanges := []\<rparr>)
              else Inr (rowCount', st')))"

text \<open>
  The loop \<open>for i := init; i < len(ev.Rows); i += step\<close>, where \<open>step\<close> is 2 for an
  update (only the after-images are read) and 1 otherwise.
\<close>

function rowsLoop ::
  "rowChangeType \<Rightarrow> 64 word \<Rightarrow> TableDiff \<Rightarrow> string \<Rightarrow> int list \<Rightarrow> nat \<Rightarrow> val list list
     \<Rightarrow> nat \<Rightarrow> int \<times> DiffState \<Rightarrow> failure + DiffState" where
  "rowsLoop changeType ts t fullTableName pkIndices pkLen evRows i rs =
     (if i < length evRows
      then (case accumulateRow changeType ts t fullTableName pkIndices pkLen (evRows ! i) rs of
              Inl f \<Rightarrow> Inl f
            | Inr rs' \<Rightarrow>
                rowsLoop changeType ts t fullTableName pkIndices pkLen evRows
                  (i + (if changeType = rowUpdated then 2 else 1)) rs')
      else Inr (snd rs))"
  by pat_completeness auto
termination
  by (relation "measure (\<lambda>(changeType, ts, t, fullTableName, pkIndices, pkLen, evRows, i, rs).
        length evRows - i)") auto

text \<open>
  \<open>processEventRows\<close> (diff.go, lines 489-570). \<open>GetTable\<close> is the lookup of the
  upstream \<open>MySQLSources\<close>, nil for a table that is not compared. The result is the new
  state when the function returns nil, \<open>Error\<close> when it returns an error, and \<open>Panic\<close>.
\<close>

definition processEventRows ::
  "(string \<Rightarrow> string \<Rightarrow> TableDiff option) \<Rightarrow> DiffState \<Rightarrow> EventHeader \<Rightarrow> RowsEvent
     \<Rightarrow> failure + DiffState" where
  "processEventRows GetTable st header ev =
     (case GetTable (EvSchema ev) (EvTable ev) of
        None \<Rightarrow> Inr st
      | Some t \<Rightarrow>
          (case PrimaryKey t of
             None \<Rightarrow> Inl (Panic ''no primary index'')
           | Some pkIdx \<Rightarrow>
               if \<exists>cols\<in>set (SkippedColumns ev). length cols > 0 then Inl (Error [])
               else
                 let changeType = getRowChangeType (EventType header) in
                 if changeType = rowInvalidChange then Inr st
                 else
                   (case at (changeEventCount st) (int (changeTypeIndex changeType)) of
                      None \<Rightarrow> Inl (Panic ''index out of range'')
                    | Some n \<Rightarrow>
                        let st1 = st\<lparr>changeEventCount :=
                                    (changeEventCount st)[changeTypeIndex changeType := n + 1]\<rparr>
                        in (case pkIndicesOf t (Columns pkIdx) of
                              Inl f \<Rightarrow> Inl f
                            | Inr pkIndices \<Rightarrow>
                                rowsLoop changeType (ucast (Timestamp header)) t
                                  (Schema t @ ''.'' @ Table t) pkIndices (length (Columns pkIdx))
                                  (Rows ev) (if changeType = rowUpdated then 1 else 0)
                                  (getRowCount (accumulatedChanges st1), st1)))))"

text \<open>
  The table \<open>t2(v, id PRIMARY KEY)\<close>, whose primary-key column is the second column,
  the empty accumulator, and an insert event.
\<close>

definition vidTable :: TableDiff where
  "vidTable = \<lparr>Schema = ''db'', Table = ''t2'',
     Info = \<lparr>InfoColumns = [\<lparr>Name = ''v'', Offset = 0\<rparr>, \<lparr>Name = ''id'', Offset = 1\<rparr>],
             Indices = [idIndex]\<rparr>,
     PrimaryKey = Some idIndex,
     ColumnMap = [''v'' \<mapsto> \<lparr>Name = ''v'', Offset = 0\<rparr>, ''id'' \<mapsto> \<lparr>Name = ''id'', Offset = 1\<rparr>],
     Range' = ''TRUE'', Collation = ''''\<rparr>"

definition emptyDiffState :: DiffState where
  "emptyDiffState = \<lparr>accumulatedChanges = [], changeEventCount = [0, 0, 0, 0],
                      pendingRowCnt = 0, pendingChangeCh = []\<rparr>"

definition insertHeader :: EventHeader where
  "insertHeader = \<lparr>EventType = WRITE_ROWS_EVENTv2, Timestamp = 100\<rparr>"

section \<open>Purge of stale fix-SQL files\<close>



































section \<open>Batch mode: the collaborators\<close>

text \<open>
  What \<open>diff.go\<close> reads of the \<open>Diff\<close> value and calls on its two sources and in the
  packages \<open>utils\<close>, \<open>dbutil\<close> and \<open>splitter\<close>, none of which is in these files:
  the configuration flags, the constant \<open>splitter.SplitThreshold\<close>, the checksum and
  row queries of the upstream and downstream source, \<open>GenerateFixSQL\<close> of the
  downstream source, the table lists of the downstream and of the work source,
  \<open>dbutil.SelectUniqueOrderKey\<close> (its second result), \<open>utils.CompareData\<close> with its
  results \<open>(equal, cmp)\<close> or an error, \<open>dbutil.FindAllIndex\<close>,
  \<open>utils.GetColumnsFromIndex\<close>, \<open>utils.GetApproximateMidBySize\<close> on the work source
  (for a table, index columns, range and count), \<open>RangeInfo.Update\<close> on a copy of a
  range, and \<open>sort.Slice\<close> of the standard library on a slice of row changes. A query
  that fails returns its error message on the left.
\<close>

datatype DMLType = Insert | Delete | Replace

record Env =
  exportFixSQL :: bool
  UseBinlogForCompare :: bool
  SplitThreshold :: "64 word"
  upstream_GetCountAndCrc32 :: "RangeInfo \<Rightarrow> ChecksumInfo"
  downstream_GetCountAndCrc32 :: "RangeInfo \<Rightarrow> ChecksumInfo"
  upstream_GetRowsIterator :: "RangeInfo \<Rightarrow> string + RowDataIterator"
  downstream_GetRowsIterator :: "RangeInfo \<Rightarrow> string + RowDataIterator"
  upstream_GetRows :: "Cond \<Rightarrow> string + RowDataIterator"
  downstream_GetRows :: "Cond \<Rightarrow> string + RowDataIterator"
  GenerateFixSQL :: "DMLType \<Rightarrow> rowMap option \<Rightarrow> rowMap option \<Rightarrow> int \<Rightarrow> string"
  downstream_GetTables :: "TableDiff list"
  workSource_GetTables :: "TableDiff list"
  SelectUniqueOrderKey :: "TableInfo \<Rightarrow> ColumnInfo list"
  CompareData :: "rowMap \<Rightarrow> rowMap \<Rightarrow> ColumnInfo list \<Rightarrow> ColumnInfo list \<Rightarrow> string + (bool \<times> int)"
  FindAllIndex :: "TableInfo \<Rightarrow> IndexInfo list"
  GetColumnsFromIndex :: "IndexInfo \<Rightarrow> TableInfo \<Rightarrow> ColumnInfo list"
  GetApproximateMidBySize ::
    "TableDiff \<Rightarrow> ColumnInfo list \<Rightarrow> RangeInfo \<Rightarrow> 64 word \<Rightarrow> string + (string \<rightharpoonup> string)"
  Update :: "RangeInfo \<Rightarrow> string \<Rightarrow> string \<Rightarrow> string \<Rightarrow> bool \<Rightarrow> bool \<Rightarrow> string \<Rightarrow> string \<Rightarrow> RangeInfo"
  sort_Slice :: "rowChange sorter"

definition checksumOf :: "Env \<Rightarrow> RangeInfo \<Rightarrow> bool \<times> 64 word \<times> string option" where
  "checksumOf env tableRange =
     compareChecksumAndGetCount (upstream_GetCountAndCrc32 env tableRange)
                                (downstream_GetCountAndCrc32 env tableRange)"

section \<open>Batch mode: row reconciliation\<close>

text \<open>
  The local variables of \<open>compareRows\<close> that its loops change: the statements appended
  to \<open>dml.sqls\<close>, the counters \<open>rowsAdd\<close> and \<open>rowsDelete\<close>, and \<open>equal\<close>. \<open>cFixes\<close> is
  not in the code: it records the arguments of each \<open>GenerateFixSQL\<close> call, in order, so
  that the fixes can be counted by kind.
\<close>

record MergeAcc =
  cSqls :: "string list"
  cFixes :: "(DMLType \<times> rowMap option \<times> rowMap option) list"
  cRowsAdd :: int
  cRowsDelete :: int
  cEqual :: bool

text \<open>
  One fix: \<open>sql := GenerateFixSQL(kind, up, down, tableIndex)\<close>, the counter or counters
  of the kind incremented, \<open>equal = false\<close>, and \<open>dml.sqls = append(dml.sqls, sql)\<close>.
\<close>

definition emitFix :: "Env \<Rightarrow> int \<Rightarrow> DMLType \<Rightarrow> rowMap option \<Rightarrow> rowMap option \<Rightarrow> MergeAcc \<Rightarrow> MergeAcc" where
  "emitFix env tableIndex kind up down acc =
     acc\<lparr>cSqls := cSqls acc @ [GenerateFixSQL env kind up down tableIndex],
         cFixes := cFixes acc @ [(kind, up, down)],
         cRowsAdd := (if kind = Insert \<or> kind = Replace then cRowsAdd acc + 1 else cRowsAdd acc),
         cRowsDelete := (if kind = Delete \<or> kind = Replace then cRowsDelete acc + 1 else cRowsDelete acc),
         cEqual := False\<rparr>"

text \<open>
  Lines 1194-1205, \<open>for lastDownstreamData != nil\<close>: a \<open>DELETE\<close> for the current
  downstream row and for every row the iterator still gives; an error of \<open>Next\<close> ends
  the function. Lines 1211-1223 do the same with \<open>INSERT\<close> on the upstream side.
\<close>

fun drainDelete :: "Env \<Rightarrow> int \<Rightarrow> rowMap \<Rightarrow> RowDataIterator \<Rightarrow> MergeAcc \<Rightarrow> MergeAcc \<times> string option" where
  "drainDelete env ti d [] acc = (emitFix env ti Delete None (Some d) acc, None)"
| "drainDelete env ti d (Inl e # rest) acc = (emitFix env ti Delete None (Some d) acc, Some e)"
| "drainDelete env ti d (Inr row # rest) acc =
     drainDelete env ti row rest (emitFix env ti Delete None (Some d) acc)"

fun drainInsert :: "Env \<Rightarrow> int \<Rightarrow> rowMap \<Rightarrow> RowDataIterator \<Rightarrow> MergeAcc \<Rightarrow> MergeAcc \<times> string option" where
  "drainInsert env ti u [] acc = (emitFix env ti Insert (Some u) None acc, None)"
| "drainInsert env ti u (Inl e # rest) acc = (emitFix env ti Insert (Some u) None acc, Some e)"
| "drainInsert env ti u (Inr row # rest) acc =
     drainInsert env ti row rest (emitFix env ti Insert (Some u) None acc)"

text \<open>
  The loop of \<open>compareRows\<close> (lines 1177-1264). The result is the accumulator and the
  error, if any, with which the function returns. When \<open>CompareData\<close> says the rows
  differ with a \<open>cmp\<close> other than 1, -1 and 0, no branch of the \<open>switch\<close> runs, neither
  row is consumed and the loop repeats the same comparison for ever: the result is
  \<open>None\<close>.
\<close>

definition iterWeight :: "rowMap option \<Rightarrow> RowDataIterator \<Rightarrow> nat" where
  "iterWeight lastData it = 2 * length it + (if lastData = None then 0 else 1)"

function compareLoop ::
  "Env \<Rightarrow> int \<Rightarrow> ColumnInfo list \<Rightarrow> ColumnInfo list
     \<Rightarrow> rowMap option \<Rightarrow> RowDataIterator \<Rightarrow> rowMap option \<Rightarrow> RowDataIterator
     \<Rightarrow> MergeAcc \<Rightarrow> (MergeAcc \<times> string option) option" where
  "compareLoop env ti orderKeyCols cols lastUpstreamData upIt lastDownstreamData downIt acc =
     (case fetch lastUpstreamData upIt of
        Inl e \<Rightarrow> Some (acc, Some e)
      | Inr (u, upIt') \<Rightarrow>
          (case fetch lastDownstreamData downIt of
             Inl e \<Rightarrow> Some (acc, Some e)
           | Inr (d, downIt') \<Rightarrow>
               (case u of
                  None \<Rightarrow>
                    (case d of
                       None \<Rightarrow> Some (acc, None)
                     | Some drow \<Rightarrow> Some (drainDelete env ti drow downIt' acc))
                | Some urow \<Rightarrow>
                    (case d of
                       None \<Rightarrow> Some (drainInsert env ti urow upIt' acc)
                     | Some drow \<Rightarrow>
                         (case CompareData env urow drow orderKeyCols cols of
                            Inl e \<Rightarrow> Some (acc, Some e)
                          | Inr (eq, cmp) \<Rightarrow>
                              if eq then
                                compareLoop env ti orderKeyCols cols None upIt' None downIt' acc
                              else if cmp = 1 then
                                compareLoop env ti orderKeyCols cols (Some urow) upIt' None downIt'
                                  (emitFix env ti Delete (Some urow) (Some drow) acc)
                              else if cmp = -1 then
                                compareLoop env ti orderKeyCols cols None upIt' (Some drow) downIt'
                                  (emitFix env ti Insert (Some urow) (Some drow) acc)
                              else if cmp = 0 then
                                compareLoop env ti orderKeyCols cols None upIt' None downIt'
                                  (emitFix env ti Replace (Some urow) (Some drow) acc)
                              else None)))))"
  by pat_completeness auto
termination
proof (relation "measure (\<lambda>(env, ti, orderKeyCols, cols, lastUp, upIt, lastDown, downIt, acc).
          iterWeight lastUp upIt + iterWeight lastDown downIt)", goal_cases)
  case 1
  show ?case by simp
next
  case (2 env ti orderKeyCols cols lastUp upIt lastDown downIt acc x u upIt' y d downIt')
  then show ?case
    by (auto simp: fetch_def iterWeight_def split: option.splits elim!: Next.elims)
next
  case (3 env ti orderKeyCols cols lastUp upIt lastDown downIt acc x u upIt' y d downIt')
  then show ?case
    by (auto simp: fetch_def iterWeight_def split: option.splits elim!: Next.elims)
next
  case (4 env ti orderKeyCols cols lastUp upIt lastDown downIt acc x u upIt' y d downIt')
  then show ?case
    by (auto simp: fetch_def iterWeight_def split: option.splits elim!: Next.elims)
next
  case (5 env ti orderKeyCols cols lastUp upIt lastDown downIt acc x u upIt' y d downIt')
  then show ?case
    by (auto simp: fetch_def iterWeight_def split: option.splits elim!: Next.elims)
qed

declare compareLoop.simps [simp del]

text \<open>
  \<open>compareRows\<close> (diff.go, lines 1159-1268). The result is the \<open>ChunkDML\<close> as the
  function leaves it, the recorded fixes, and what it returns: \<open>Inr equal\<close> for
  \<open>(equal, nil)\<close>, \<open>Inl (Error e)\<close> for \<open>(false, e)\<close>, \<open>Inl (Panic _)\<close> when the table
  index is out of range. On an error the statements appended so far stay in
  \<open>dml.sqls\<close>, and \<open>dml.rowAdd\<close> and \<open>dml.rowDelete\<close> are not assigned.
\<close>

definition compareRows ::
  "Env \<Rightarrow> RangeInfo \<Rightarrow> ChunkDML
     \<Rightarrow> (ChunkDML \<times> (DMLType \<times> rowMap option \<times> rowMap option) list \<times> (failure + bool)) option" where
  "compareRows env rangeInfo dml =
     (case upstream_GetRowsIterator env rangeInfo of
        Inl e \<Rightarrow> Some (dml, [], Inl (Error e))
      | Inr upstreamRowsIterator \<Rightarrow>
          (case downstream_GetRowsIterator env rangeInfo of
             Inl e \<Rightarrow> Some (dml, [], Inl (Error e))
           | Inr downstreamRowsIterator \<Rightarrow>
               (case at (workSource_GetTables env) (GetTableIndex rangeInfo) of
                  None \<Rightarrow> Some (dml, [], Inl (Panic ''index out of range''))
                | Some workTable \<Rightarrow>
                    (case compareLoop env (GetTableIndex rangeInfo)
                            (SelectUniqueOrderKey env (Info workTable)) (InfoColumns (Info workTable))
                            None upstreamRowsIterator None downstreamRowsIterator
                            \<lparr>cSqls = sqls dml, cFixes = [], cRowsAdd = 0, cRowsDelete = 0,
                             cEqual = True\<rparr> of
                       None \<Rightarrow> None
                     | Some (acc, Some e) \<Rightarrow>
                         Some (dml\<lparr>sqls := cSqls acc\<rparr>, cFixes acc, Inl (Error e))
                     | Some (acc, None) \<Rightarrow>
                         Some (dml\<lparr>sqls := cSqls acc, rowAdd := cRowsAdd acc,
                                   rowDelete := cRowsDelete acc\<rparr>,
                               cFixes acc, Inr (cEqual acc))))))"

text \<open>The number of fixes of a kind among the recorded fixes.\<close>

definition countKind :: "DMLType \<Rightarrow> (DMLType \<times> rowMap option \<times> rowMap option) list \<Rightarrow> int" where
  "countKind kind fixes = int (length (filter (\<lambda>f. fst f = kind) fixes))"

text \<open>
  The relation between the counters, the flag and the recorded fixes that every step
  of \<open>compareRows\<close> keeps, for the statements \<open>base\<close> that \<open>dml.sqls\<close> held before.
\<close>

definition fixSQL :: "Env \<Rightarrow> int \<Rightarrow> DMLType \<times> rowMap option \<times> rowMap option \<Rightarrow> string" where
  "fixSQL env ti f = GenerateFixSQL env (fst f) (fst (snd f)) (snd (snd f)) ti"

definition accOK :: "Env \<Rightarrow> int \<Rightarrow> string list \<Rightarrow> MergeAcc \<Rightarrow> bool" where
  "accOK env ti base acc =
     (cRowsAdd acc = countKind Insert (cFixes acc) + countKind Replace (cFixes acc)
      \<and> cRowsDelete acc = countKind Delete (cFixes acc) + countKind Replace (cFixes acc)
      \<and> (cEqual acc \<longleftrightarrow> cFixes acc = [])
      \<and> cSqls acc = base @ map (fixSQL env ti) (cFixes acc))"

text \<open>
  Examples: the rows \<open>(1, a)\<close>, \<open>(2, b)\<close> and \<open>(2, c)\<close> of \<open>t(id, v)\<close>; a \<open>GenerateFixSQL\<close>
  that names the kind; a \<open>CompareData\<close> that calls two rows equal when \<open>id\<close> and \<open>v\<close>
  agree and otherwise compares the \<open>id\<close> strings; an \<open>Update\<close> that sets the bound of
  the column, or adds one.
\<close>

definition rowA :: rowMap where
  "rowA = [''id'' \<mapsto> \<lparr>Data = ''1'', IsNull = False\<rparr>, ''v'' \<mapsto> \<lparr>Data = ''a'', IsNull = False\<rparr>]"

definition rowB :: rowMap where
  "rowB = [''id'' \<mapsto> \<lparr>Data = ''2'', IsNull = False\<rparr>, ''v'' \<mapsto> \<lparr>Data = ''b'', IsNull = False\<rparr>]"

definition rowB' :: rowMap where
  "rowB' = [''id'' \<mapsto> \<lparr>Data = ''2'', IsNull = False\<rparr>, ''v'' \<mapsto> \<lparr>Data = ''c'', IsNull = False\<rparr>]"

definition exampleFixSQL :: "DMLType \<Rightarrow> rowMap option \<Rightarrow> rowMap option \<Rightarrow> int \<Rightarrow> string" where
  "exampleFixSQL kind up down ti =
     (case kind of Insert \<Rightarrow> ''INSERT'' | Delete \<Rightarrow> ''DELETE'' | Replace \<Rightarrow> ''REPLACE'')"

definition idOf :: "rowMap \<Rightarrow> string" where
  "idOf r = (case r ''id'' of None \<Rightarrow> [] | Some c \<Rightarrow> Data c)"

definition exampleCompareData ::
  "rowMap \<Rightarrow> rowMap \<Rightarrow> ColumnInfo list \<Rightarrow> ColumnInfo list \<Rightarrow> string + (bool \<times> int)" where
  "exampleCompareData u d orderKeyCols cols =
     Inr (u ''id'' = d ''id'' \<and> u ''v'' = d ''v'',
          if idOf u < idOf d then -1 else if idOf d < idOf u then 1 else 0)"

fun setBound :: "string \<Rightarrow> string \<Rightarrow> string \<Rightarrow> bool \<Rightarrow> bool \<Rightarrow> Bound list \<Rightarrow> Bound list" where
  "setBound column lo up updateLower updateUpper [] =
     [\<lparr>Column = column, Lower = lo, Upper = up, HasLower = updateLower, HasUpper = updateUpper\<rparr>]"
| "setBound column lo up updateLower updateUpper (b # bs) =
     (if Column b = column
      then (b\<lparr>Lower := (if updateLower then lo else Lower b),
               HasLower := (updateLower \<or> HasLower b),
               Upper := (if updateUpper then up else Upper b),
               HasUpper := (updateUpper \<or> HasUpper b)\<rparr>) # bs
      else b # setBound column lo up updateLower updateUpper bs)"

definition exampleUpdate ::
  "RangeInfo \<Rightarrow> string \<Rightarrow> string \<Rightarrow> string \<Rightarrow> bool \<Rightarrow> bool \<Rightarrow> string \<Rightarrow> string \<Rightarrow> RangeInfo" where
  "exampleUpdate r column lo up updateLower updateUpper collation rng =
     r\<lparr>ChunkRange := (ChunkRange r)\<lparr>Bounds :=
          setBound column lo up updateLower updateUpper (Bounds (ChunkRange r))\<rparr>\<rparr>"

text \<open>
  The second scenario of the specification: upstream holds \<open>(1, a)\<close> and \<open>(2, b)\<close>,
  downstream holds \<open>(1, a)\<close>, in one chunk.
\<close>

definition exEnv :: Env where
  "exEnv = \<lparr>exportFixSQL = True, UseBinlogForCompare = False, SplitThreshold = 1000,
     upstream_GetCountAndCrc32 = (\<lambda>r. \<lparr>Checksum = 7, Count = 2, Err = None\<rparr>),
     downstream_GetCountAndCrc32 = (\<lambda>r. \<lparr>Checksum = 9, Count = 1, Err = None\<rparr>),
     upstream_GetRowsIterator = (\<lambda>r. Inr [Inr rowA, Inr rowB]),
     downstream_GetRowsIterator = (\<lambda>r. Inr [Inr rowA]),
     upstream_GetRows = (\<lambda>c. Inr [Inr rowA, Inr rowB]),
     downstream_GetRows = (\<lambda>c. Inr [Inr rowA]),
     GenerateFixSQL = exampleFixSQL,
     downstream_GetTables = [idvTable],
     workSource_GetTables = [idvTable],
     SelectUniqueOrderKey = (\<lambda>info. [\<lparr>Name = ''id'', Offset = 0\<rparr>]),
     CompareData = exampleCompareData,
     FindAllIndex = Indices,
     GetColumnsFromIndex = (\<lambda>idx info. [\<lparr>Name = ''id'', Offset = 0\<rparr>]),
     GetApproximateMidBySize = (\<lambda>t cs r c. Inr [''id'' \<mapsto> ''5'']),
     Update = exampleUpdate,
     sort_Slice = exampleSort\<rparr>"

text \<open>A variant: the upstream iterator fails after its first row, and downstream has no row.\<close>

definition lostConnectionEnv :: Env where
  "lostConnectionEnv =
     exEnv\<lparr>upstream_GetRowsIterator := (\<lambda>r. Inr [Inr rowA, Inl ''connection lost'']),
           downstream_GetRowsIterator := (\<lambda>r. Inr [])\<rparr>"

definition chunk0 :: RangeInfo where
  "chunk0 = \<lparr>ChunkRange = \<lparr>Index = \<lparr>TableIndex = 0, BucketIndexLeft = 0, BucketIndexRight = 0,
                                    ChunkIndex = 0, ChunkCnt = 1\<rparr>,
                           Type = Others, Bounds = []\<rparr>,
             IndexID = 1, ProgressID = ''db.t''\<rparr>"

definition dml0 :: ChunkDML where
  "dml0 = \<lparr>node = ToNode chunk0, sqls = [], rowAdd = 0, rowDelete = 0\<rparr>"

section \<open>Continuous validation: inserted and updated rows\<close>

text \<open>
  \<open>getPkValues\<close> (diff.go, lines 1030-1037): the \<open>Data\<close> of each primary-key column of
  the row. A column the row does not have is a nil pointer dereference, as is a table
  without a primary key.
\<close>

fun getPkValuesCols :: "rowMap \<Rightarrow> IndexColumn list \<Rightarrow> failure + string list" where
  "getPkValuesCols d [] = Inr []"
| "getPkValuesCols d (c # cs) =
     (case d (ColName c) of
        None \<Rightarrow> Inl (Panic ''nil pointer dereference'')
      | Some cd \<Rightarrow>
          (case getPkValuesCols d cs of Inl f \<Rightarrow> Inl f | Inr vs \<Rightarrow> Inr (Data cd # vs)))"

definition getPkValues :: "rowMap \<Rightarrow> Cond \<Rightarrow> failure + string list" where
  "getPkValues d cond =
     (case PrimaryKey (CondTable cond) of
        None \<Rightarrow> Inl (Panic ''nil pointer dereference'')
      | Some pkIdx \<Rightarrow> getPkValuesCols d (Columns pkIdx))"

text \<open>
  Lines 1119-1126, \<open>for lastUpstreamData != nil\<close>: the primary key of the current
  upstream row and of every row the iterator still gives is a failed row; an error of
  \<open>Next\<close> ends the function with \<open>(nil, err)\<close>.
\<close>

fun drainFailed :: "Cond \<Rightarrow> rowMap \<Rightarrow> RowDataIterator \<Rightarrow> string list list \<Rightarrow> failure + string list list" where
  "drainFailed cond u [] failedRows =
     (case getPkValues u cond of Inl f \<Rightarrow> Inl f | Inr p \<Rightarrow> Inr (failedRows @ [p]))"
| "drainFailed cond u (Inl e # rest) failedRows =
     (case getPkValues u cond of Inl f \<Rightarrow> Inl f | Inr p \<Rightarrow> Inl (Error e))"
| "drainFailed cond u (Inr row # rest) failedRows =
     (case getPkValues u cond of
        Inl f \<Rightarrow> Inl f
      | Inr p \<Rightarrow> drainFailed cond row rest (failedRows @ [p]))"

text \<open>
  The loop of \<open>validateInsertAndUpdateRows\<close> (lines 1094-1155). It ends with the failed
  rows at the \<open>break\<close> statements, with \<open>Error\<close> at a \<open>return nil, err\<close>, and never when
  \<open>CompareData\<close> says the rows differ with a \<open>cmp\<close> other than 1, -1 and 0 (no branch of
  the \<open>switch\<close> runs and nothing changes).
\<close>

function validateLoop ::
  "Env \<Rightarrow> Cond \<Rightarrow> ColumnInfo list \<Rightarrow> ColumnInfo list
     \<Rightarrow> rowMap option \<Rightarrow> RowDataIterator \<Rightarrow> rowMap option \<Rightarrow> RowDataIterator
     \<Rightarrow> string list list \<Rightarrow> (failure + string list list) option" where
  "validateLoop env cond orderKeyCols cols lastUpstreamData upIt lastDownstreamData downIt failedRows =
     (case fetch lastUpstreamData upIt of
        Inl e \<Rightarrow> Some (Inl (Error e))
      | Inr (u, upIt') \<Rightarrow>
          (case fetch lastDownstreamData downIt of
             Inl e \<Rightarrow> Some (Inl (Error e))
           | Inr (d, downIt') \<Rightarrow>
               (case d of
                  None \<Rightarrow>
                    (case u of
                       None \<Rightarrow> Some (Inr failedRows)
                     | Some urow \<Rightarrow> Some (drainFailed cond urow upIt' failedRows))
                | Some drow \<Rightarrow>
                    (case u of
                       None \<Rightarrow> Some (Inr failedRows)
                     | Some urow \<Rightarrow>
                         (case CompareData env urow drow orderKeyCols cols of
                            Inl e \<Rightarrow> Some (Inl (Error e))
                          | Inr (eq, cmp) \<Rightarrow>
                              if eq then
                                validateLoop env cond orderKeyCols cols None upIt' None downIt' failedRows
                              else if cmp = 1 then
                                validateLoop env cond orderKeyCols cols (Some urow) upIt' None downIt'
                                  failedRows
                              else if cmp = -1 then
                                (case getPkValues urow cond of
                                   Inl f \<Rightarrow> Some (Inl f)
                                 | Inr p \<Rightarrow>
                                     validateLoop env cond orderKeyCols cols None upIt' (Some drow)
                                       downIt' (failedRows @ [p]))
                              else if cmp = 0 then
                                (case getPkValues urow cond of
                                   Inl f \<Rightarrow> Some (Inl f)
                                 | Inr p \<Rightarrow>
                                     validateLoop env cond orderKeyCols cols None upIt' None
                                       downIt' (failedRows @ [p]))
                              else None)))))"
  by pat_completeness auto
termination
proof (relation "measure (\<lambda>(env, cond, orderKeyCols, cols, lastUp, upIt, lastDown, downIt, failedRows).
          iterWeight lastUp upIt + iterWeight lastDown downIt)", goal_cases)
  case 1
  show ?case by simp
next
  case (2 env cond orderKeyCols cols lastUp upIt lastDown downIt failedRows x u upIt' y d downIt')
  then show ?case
    by (auto simp: fetch_def iterWeight_def split: option.splits elim!: Next.elims)
next
  case (3 env cond orderKeyCols cols lastUp upIt lastDown downIt failedRows x u upIt' y d downIt')
  then show ?case
    by (auto simp: fetch_def iterWeight_def split: option.splits elim!: Next.elims)
next
  case (4 env cond orderKeyCols cols lastUp upIt lastDown downIt failedRows x u upIt' y d downIt')
  then show ?case
    by (auto simp: fetch_def iterWeight_def split: option.splits elim!: Next.elims)
next
  case (5 env cond orderKeyCols cols lastUp upIt lastDown downIt failedRows x u upIt' y d downIt')
  then show ?case
    by (auto simp: fetch_def iterWeight_def split: option.splits elim!: Next.elims)
qed

declare validateLoop.simps [simp del]

text \<open>
  The upstream iterator (lines 1075-1082): built from the binlog rows when
  \<open>UseBinlogForCompare\<close> is set, and otherwise queried from the upstream source.
\<close>

definition upstreamRowsIterator :: "Env \<Rightarrow> rowChange list \<Rightarrow> Cond \<Rightarrow> failure + RowDataIterator" where
  "upstreamRowsIterator env rs cond =
     (if UseBinlogForCompare env
      then (case getRowChangeIterator (sort_Slice env) (CondTable cond) rs of
              Inl f \<Rightarrow> Inl f
            | Inr its \<Rightarrow> Inr (map Inr its))
      else (case upstream_GetRows env cond of Inl e \<Rightarrow> Inl (Error e) | Inr it \<Rightarrow> Inr it))"

text \<open>
  \<open>validateInsertAndUpdateRows\<close> (diff.go, lines 1070-1157): \<open>Inr\<close> of the failed rows
  for \<open>(failedRows, nil)\<close>, \<open>Inl (Error e)\<close> for \<open>(nil, e)\<close>.
\<close>

definition validateInsertAndUpdateRows ::
  "Env \<Rightarrow> rowChange list \<Rightarrow> Cond \<Rightarrow> (failure + string list list) option" where
  "validateInsertAndUpdateRows env rs cond =
     (case upstreamRowsIterator env rs cond of
        Inl f \<Rightarrow> Some (Inl f)
      | Inr upIt \<Rightarrow>
          (case downstream_GetRows env cond of
             Inl e \<Rightarrow> Some (Inl (Error e))
           | Inr downIt \<Rightarrow>
               validateLoop env cond (SelectUniqueOrderKey env (Info (CondTable cond)))
                 (InfoColumns (Info (CondTable cond))) None upIt None downIt []))"

text \<open>
  Two rows are the same when \<open>CompareData\<close> returns \<open>equal = true\<close> for them. The rows a
  pending row and an iterator still hold.
\<close>

definition sameRow :: "Env \<Rightarrow> ColumnInfo list \<Rightarrow> ColumnInfo list \<Rightarrow> rowMap \<Rightarrow> rowMap \<Rightarrow> bool" where
  "sameRow env orderKeyCols cols u d =
     (case CompareData env u d orderKeyCols cols of Inl e \<Rightarrow> False | Inr (eq, cmp) \<Rightarrow> eq)"

definition rowsOf :: "rowMap option \<Rightarrow> RowDataIterator \<Rightarrow> rowMap set" where
  "rowsOf lastData it = set_option lastData \<union> {r. Inr r \<in> set it}"

text \<open>
  Examples: a batch with the inserted rows \<open>(1, a)\<close> and \<open>(2, b)\<close> of \<open>t(id, v)\<close> and its
  condition; a batch with an update of the row 1 only, validated when the row is gone
  upstream and still \<open>(1, a)\<close> downstream.
\<close>

definition change1 :: rowChange where
  "change1 = \<lparr>pk = [''1''], data = [Some ''1'', Some ''a''], theType = rowInsert, lastMeetTs = 100\<rparr>"

definition change2 :: rowChange where
  "change2 = \<lparr>pk = [''2''], data = [Some ''2'', Some ''b''], theType = rowInsert, lastMeetTs = 100\<rparr>"

definition idvCond :: Cond where
  "idvCond = \<lparr>CondTable = idvTable, PkValues = [[''1''], [''2'']]\<rparr>"

definition update1 :: rowChange where
  "update1 = \<lparr>pk = [''1''], data = [Some ''1'', Some ''a''], theType = rowUpdated, lastMeetTs = 100\<rparr>"

definition cond1 :: Cond where
  "cond1 = \<lparr>CondTable = idvTable, PkValues = [[''1'']]\<rparr>"

definition downstreamOnlyEnv :: Env where
  "downstreamOnlyEnv = exEnv\<lparr>upstream_GetRows := (\<lambda>c. Inr []),
                              downstream_GetRows := (\<lambda>c. Inr [Inr rowA])\<rparr>"

definition binlogEnv :: Env where
  "binlogEnv = exEnv\<lparr>UseBinlogForCompare := True\<rparr>"

text \<open>
  An example with a numeric primary key: the batch holds the inserted rows 9 and 10,
  the downstream query returns the same two rows in the order of the key, 9 before 10,
  and \<open>CompareData\<close> compares the keys as numbers.
\<close>

definition decimalOf :: "string \<Rightarrow> int" where
  "decimalOf s = foldl (\<lambda>n c. 10 * n + (of_char c - 48)) 0 s"

definition numericCompareData ::
  "rowMap \<Rightarrow> rowMap \<Rightarrow> ColumnInfo list \<Rightarrow> ColumnInfo list \<Rightarrow> string + (bool \<times> int)" where
  "numericCompareData u d orderKeyCols cols =
     Inr (u ''id'' = d ''id'' \<and> u ''v'' = d ''v'',
          if decimalOf (idOf u) < decimalOf (idOf d) then -1
          else if decimalOf (idOf d) < decimalOf (idOf u) then 1 else 0)"

definition numericKeyEnv :: Env where
  "numericKeyEnv = exEnv\<lparr>UseBinlogForCompare := True,
                          downstream_GetRows := (\<lambda>c. Inr [Inr rowNine, Inr rowTen]),
                          CompareData := numericCompareData\<rparr>"

definition cond910 :: Cond where
  "cond910 = \<lparr>CondTable = idvTable, PkValues = [[''9''], [''10'']]\<rparr>"

section \<open>Batch mode: bisection\<close>

text \<open>
  The two halves of a range (diff.go, lines 925-940): copies of the range, updated for
  every index column with the middle value as the upper bound of the first half and
  as the lower bound of the second. \<open>midValues\<close> is a Go map from column names to
  strings, which gives the empty string for a missing key.
\<close>

definition midValue :: "(string \<rightharpoonup> string) \<Rightarrow> string \<Rightarrow> string" where
  "midValue midValues column = (case midValues column of None \<Rightarrow> [] | Some v \<Rightarrow> v)"

definition tableRange1 :: "Env \<Rightarrow> TableDiff \<Rightarrow> ColumnInfo list \<Rightarrow> (string \<rightharpoonup> string) \<Rightarrow> RangeInfo \<Rightarrow> RangeInfo" where
  "tableRange1 env tableDiff indexColumns midValues tableRange =
     foldl (\<lambda>r c. Update env r (Name c) [] (midValue midValues (Name c)) False True
                     (Collation tableDiff) (Range' tableDiff))
           tableRange indexColumns"

definition tableRange2 :: "Env \<Rightarrow> TableDiff \<Rightarrow> ColumnInfo list \<Rightarrow> (string \<rightharpoonup> string) \<Rightarrow> RangeInfo \<Rightarrow> RangeInfo" where
  "tableRange2 env tableDiff indexColumns midValues tableRange =
     foldl (\<lambda>r c. Update env r (Name c) (midValue midValues (Name c)) [] True False
                     (Collation tableDiff) (Range' tableDiff))
           tableRange indexColumns"

text \<open>
  \<open>binSearch\<close> (diff.go, lines 917-980). The recursion follows the half whose checksum
  differs and need not end (a half can keep the whole count), so the function is
  partial: \<open>None\<close> when it never returns. \<open>Inr\<close> is the range returned with a nil error,
  \<open>Inl (Error e)\<close> is \<open>(nil, e)\<close>, and \<open>Inl (Fatal _)\<close> is a \<open>log.Fatal\<close>. The addition
  \<open>count1 + count2\<close> is that of \<open>int64\<close>; \<open>cnt\<close> is the parameter \<open>count\<close>.
\<close>

partial_function (option) binSearch ::
  "Env \<Rightarrow> TableDiff \<Rightarrow> ColumnInfo list \<Rightarrow> RangeInfo \<Rightarrow> 64 word \<Rightarrow> (failure + RangeInfo) option" where
  "binSearch env tableDiff indexColumns tableRange cnt =
     (if cnt \<le>s SplitThreshold env then Some (Inr tableRange)
      else
        (case GetApproximateMidBySize env tableDiff indexColumns tableRange cnt of
           Inl e \<Rightarrow> Some (Inl (Error e))
         | Inr midValues \<Rightarrow>
             (case checksumOf env (tableRange1 env tableDiff indexColumns midValues tableRange) of
                (isEqual1, count1, err1) \<Rightarrow>
                  (case err1 of
                     Some e \<Rightarrow> Some (Inl (Error e))
                   | None \<Rightarrow>
                       (case checksumOf env
                               (tableRange2 env tableDiff indexColumns midValues tableRange) of
                          (isEqual2, count2, err2) \<Rightarrow>
                            (case err2 of
                               Some e \<Rightarrow> Some (Inl (Error e))
                             | None \<Rightarrow>
                                 if count1 + count2 \<noteq> cnt
                                 then Some (Inl (Fatal ''the count is not correct''))
                                 else if \<not> isEqual1 \<and> \<not> isEqual2 then Some (Inr tableRange)
                                 else if \<not> isEqual1 then
                                   binSearch env tableDiff indexColumns
                                     (tableRange1 env tableDiff indexColumns midValues tableRange)
                                     count1
                                 else if \<not> isEqual2 then
                                   binSearch env tableDiff indexColumns
                                     (tableRange2 env tableDiff indexColumns midValues tableRange)
                                     count2
                                 else Some (Inl (Fatal
                                   ''the isEqual1 and isEqual2 cannot be both true''))))))))"

text \<open>
  \<open>BinGenerate\<close> (diff.go, lines 875-915), for the table list of the target source.
\<close>

definition BinGenerate ::
  "Env \<Rightarrow> TableDiff list \<Rightarrow> RangeInfo \<Rightarrow> 64 word \<Rightarrow> (failure + RangeInfo) option" where
  "BinGenerate env targetTables tableRange cnt =
     (if cnt \<le>s SplitThreshold env then Some (Inr tableRange)
      else
        (case at targetTables (GetTableIndex tableRange) of
           None \<Rightarrow> Some (Inl (Panic ''index out of range''))
         | Some tableDiff \<Rightarrow>
             let indices = FindAllIndex env (Info tableDiff) in
             if length indices = 0 then Some (Inr tableRange)
             else
               (case find (\<lambda>i. IndexID tableRange = ID i) indices of
                  None \<Rightarrow> Some (Inr tableRange)
                | Some idx \<Rightarrow>
                    if \<not> (Primary idx \<or> Unique idx) then Some (Inr tableRange)
                    else
                      let indexColumns = GetColumnsFromIndex env idx (Info tableDiff) in
                      if length indexColumns = 0 then Some (Inr tableRange)
                      else binSearch env tableDiff indexColumns tableRange cnt)))"

section \<open>Batch mode: the chunk task\<close>

text \<open>
  The calls \<open>consume\<close> makes on the report, in order, and what a call of \<open>consume\<close>
  leaves: the \<open>ChunkDML\<close> its deferred function sends on \<open>sqlCh\<close> (none when the process
  is ended by \<open>log.Fatal\<close>, which runs no deferred function; the one built so far when
  the function panics), the report calls, and the value returned.
\<close>

datatype ReportCall =
    SetTableMeetError string string string
  | SetTableDataCheckResult string string bool int int ChunkID

record ConsumeResult =
  emitted :: "ChunkDML option"
  reportCalls :: "ReportCall list"
  ret :: "failure + bool"

text \<open>Lines 869-872: the state is stored in the node, the result is reported and returned.\<close>

definition finish ::
  "RangeInfo \<Rightarrow> TableDiff \<Rightarrow> NodeState \<Rightarrow> bool \<Rightarrow> ChunkDML \<Rightarrow> ReportCall list \<Rightarrow> ConsumeResult" where
  "finish rangeInfo tableDiff state isEqual dml calls =
     \<lparr>emitted = Some (dml\<lparr>node := (node dml)\<lparr>State := state\<rparr>\<rparr>),
      reportCalls = calls @ [SetTableDataCheckResult (Schema tableDiff) (Table tableDiff) isEqual
                               (rowAdd dml) (rowDelete dml) (Index (ChunkRange rangeInfo))],
      ret = Inr isEqual\<rparr>"

definition panicked :: "ChunkDML \<Rightarrow> string \<Rightarrow> ConsumeResult" where
  "panicked dml m = \<lparr>emitted = Some dml, reportCalls = [], ret = Inl (Panic m)\<rparr>"

text \<open>
  Lines 863-872, reached after a checksum mismatch with \<open>exportFixSQL\<close> set: the rows
  of the range \<open>info\<close> are compared; an error of \<open>compareRows\<close> is reported and the
  chunk task goes on. \<open>isEqual\<close> is false here, and so is \<open>isEqual && isDataEqual\<close>.
\<close>

definition reconcile ::
  "Env \<Rightarrow> RangeInfo \<Rightarrow> TableDiff \<Rightarrow> bool \<Rightarrow> ChunkDML \<Rightarrow> RangeInfo \<Rightarrow> ReportCall list
     \<Rightarrow> ConsumeResult option" where
  "reconcile env rangeInfo tableDiff isEqual dml info calls =
     (case compareRows env info dml of
        None \<Rightarrow> None
      | Some (dml', fixes, r) \<Rightarrow>
          (case r of
             Inl (Panic m) \<Rightarrow> Some (panicked dml' m)
           | Inl (Fatal m) \<Rightarrow> Some \<lparr>emitted = None, reportCalls = [], ret = Inl (Fatal m)\<rparr>
           | Inl (Error e) \<Rightarrow>
               Some (finish rangeInfo tableDiff FailedState (isEqual \<and> False) dml'
                       (calls @ [SetTableMeetError (Schema tableDiff) (Table tableDiff) e]))
           | Inr isDataEqual \<Rightarrow>
               Some (finish rangeInfo tableDiff FailedState (isEqual \<and> isDataEqual) dml' calls)))"

text \<open>
  \<open>consume\<close> (diff.go, lines 828-873). The table lookups
  \<open>GetTables()[rangeInfo.GetTableIndex()]\<close> panic out of range; the second one is an
  argument of the \<open>log.Debug\<close> call of line 847. An error of \<open>BinGenerate\<close> is
  reported and the rows of the whole range are compared.
\<close>

definition consume :: "Env \<Rightarrow> RangeInfo \<Rightarrow> ConsumeResult option" where
  "consume env rangeInfo =
     (let dml = \<lparr>node = ToNode rangeInfo, sqls = [], rowAdd = 0, rowDelete = 0\<rparr> in
      if Type (ChunkRange rangeInfo) = Empty
      then Some \<lparr>emitted = Some (dml\<lparr>node := (node dml)\<lparr>State := IgnoreState\<rparr>\<rparr>),
                 reportCalls = [], ret = Inr True\<rparr>
      else
        (case at (downstream_GetTables env) (GetTableIndex rangeInfo) of
           None \<Rightarrow> Some (panicked dml ''index out of range'')
         | Some tableDiff \<Rightarrow>
             (case checksumOf env rangeInfo of
                (isEqual, cnt, err) \<Rightarrow>
                  (case err of
                     Some e \<Rightarrow>
                       Some (finish rangeInfo tableDiff FailedState isEqual dml
                               [SetTableMeetError (Schema tableDiff) (Table tableDiff) e])
                   | None \<Rightarrow>
                       if \<not> isEqual \<and> exportFixSQL env
                       then
                         (case at (workSource_GetTables env) (GetTableIndex rangeInfo) of
                            None \<Rightarrow> Some (panicked dml ''index out of range'')
                          | Some workTable \<Rightarrow>
                              (case (if SplitThreshold env <s cnt
                                     then BinGenerate env (workSource_GetTables env) rangeInfo cnt
                                     else Some (Inr rangeInfo)) of
                                 None \<Rightarrow> None
                               | Some bin \<Rightarrow>
                                   (case bin of
                                      Inl (Fatal m) \<Rightarrow>
                                        Some \<lparr>emitted = None, reportCalls = [], ret = Inl (Fatal m)\<rparr>
                                    | Inl (Panic m) \<Rightarrow> Some (panicked dml m)
                                    | Inl (Error e) \<Rightarrow>
                                        reconcile env rangeInfo tableDiff isEqual dml rangeInfo
                                          [SetTableMeetError (Schema tableDiff) (Table tableDiff) e]
                                    | Inr info \<Rightarrow>
                                        reconcile env rangeInfo tableDiff isEqual dml info [])))
                       else Some (finish rangeInfo tableDiff SuccessState isEqual dml [])))))"

text \<open>
  The outcome of the checksum stage of \<open>consume\<close> for a range: it returned an error;
  it returned no error and found the two sides different.
\<close>

definition checksumErrored :: "Env \<Rightarrow> RangeInfo \<Rightarrow> bool" where
  "checksumErrored env r = (snd (snd (checksumOf env r)) \<noteq> None)"

definition checksumDiffers :: "Env \<Rightarrow> RangeInfo \<Rightarrow> bool" where
  "checksumDiffers env r = (snd (snd (checksumOf env r)) = None \<and> \<not> fst (checksumOf env r))"

text \<open>
  Examples for the bisection: a source whose upstream checksum differs from the
  downstream one exactly on the ranges that have a lower bound, with 600 rows in every
  range; the parent range of the examples has 1200 rows and the threshold is 1000.
\<close>

definition hasLowerBound :: "RangeInfo \<Rightarrow> bool" where
  "hasLowerBound r = (\<exists>b\<in>set (Bounds (ChunkRange r)). HasLower b)"

definition binEnv :: Env where
  "binEnv = exEnv\<lparr>
     upstream_GetCountAndCrc32 :=
       (\<lambda>r. \<lparr>Checksum = (if hasLowerBound r then 5 else 3), Count = 600, Err = None\<rparr>),
     downstream_GetCountAndCrc32 := (\<lambda>r. \<lparr>Checksum = 3, Count = 600, Err = None\<rparr>)\<rparr>"

definition idColumn :: ColumnInfo where
  "idColumn = \<lparr>Name = ''id'', Offset = 0\<rparr>"

definition lowerHalf :: RangeInfo where
  "lowerHalf = chunk0\<lparr>ChunkRange := (ChunkRange chunk0)\<lparr>Bounds :=
     [\<lparr>Column = ''id'', Lower = [], Upper = ''5'', HasLower = False, HasUpper = True\<rparr>]\<rparr>\<rparr>"

definition upperHalf :: RangeInfo where
  "upperHalf = chunk0\<lparr>ChunkRange := (ChunkRange chunk0)\<lparr>Bounds :=
     [\<lparr>Column = ''id'', Lower = ''5'', Upper = [], HasLower = True, HasUpper = False\<rparr>]\<rparr>\<rparr>"

text \<open>
  Variants of the second scenario: both sides return the row \<open>(1, a)\<close> although their
  checksums differ; fix SQL is not exported; the two checksums agree.
\<close>

definition sameRowsEnv :: Env where
  "sameRowsEnv = exEnv\<lparr>upstream_GetRowsIterator := (\<lambda>r. Inr [Inr rowA])\<rparr>"

definition noExportEnv :: Env where
  "noExportEnv = exEnv\<lparr>exportFixSQL := False\<rparr>"

definition agreeEnv :: Env where
  "agreeEnv = exEnv\<lparr>downstream_GetCountAndCrc32 := (\<lambda>r. \<lparr>Checksum = 7, Count = 2, Err = None\<rparr>)\<rparr>"

section \<open>Theorems\<close>

subsection \<open>The checksum comparator\<close>

text \<open>
  C7. \<open>compareChecksumAndGetCount\<close> returns \<open>equal = true\<close> exactly when neither side
  reports an error and both the counts and the checksums agree; an upstream error, or a
  downstream error when upstream has none, is returned as \<open>(false, -1, that error)\<close>;
  with no error on either side the count returned is the upstream count and the error
  is nil.
\<close>

theorem compareChecksumAndGetCount_spec:
  "(fst (compareChecksumAndGetCount u d) \<longleftrightarrow>
      Err u = None \<and> Err d = None \<and> Count u = Count d \<and> Checksum u = Checksum d)
   \<and> (case Err u of
        Some e \<Rightarrow> compareChecksumAndGetCount u d = (False, -1, Some e)
      | None \<Rightarrow>
          (case Err d of
             Some e \<Rightarrow> compareChecksumAndGetCount u d = (False, -1, Some e)
           | None \<Rightarrow> fst (snd (compareChecksumAndGetCount u d)) = Count u
                      \<and> snd (snd (compareChecksumAndGetCount u d)) = None))"
  by (simp add: compareChecksumAndGetCount_def split: option.splits)

subsection \<open>Row reconciliation\<close>

lemma countKind_snoc:
  "countKind k (fs @ [f]) = countKind k fs + (if fst f = k then 1 else 0)"
  by (simp add: countKind_def)

lemma emitFix_accOK:
  "accOK env ti base acc \<Longrightarrow> accOK env ti base (emitFix env ti kind up down acc)"
  by (cases kind) (simp_all add: accOK_def emitFix_def countKind_snoc fixSQL_def)

lemma drainDelete_accOK:
  "accOK env ti base acc \<Longrightarrow> drainDelete env ti d it acc = (acc', e) \<Longrightarrow> accOK env ti base acc'"
  by (induction env ti d it acc rule: drainDelete.induct) (auto intro: emitFix_accOK)

lemma drainInsert_accOK:
  "accOK env ti base acc \<Longrightarrow> drainInsert env ti u it acc = (acc', e) \<Longrightarrow> accOK env ti base acc'"
  by (induction env ti u it acc rule: drainInsert.induct) (auto intro: emitFix_accOK)

lemma compareLoop_accOK:
  "accOK env ti base acc
   \<Longrightarrow> compareLoop env ti okc cols lastUp upIt lastDown downIt acc = Some (acc', e)
   \<Longrightarrow> accOK env ti base acc'"
proof (induction env ti okc cols lastUp upIt lastDown downIt acc rule: compareLoop.induct)
  case (1 env ti okc cols lastUp upIt lastDown downIt acc)
  note ok = "1.prems"(1)
  note run = "1.prems"(2)
  note unf = compareLoop.simps [of env ti okc cols lastUp upIt lastDown downIt acc]
  show ?case
  proof (cases "fetch lastUp upIt")
    case (Inl err)
    then show ?thesis using run ok by (simp add: unf)
  next
    case up: (Inr p)
    obtain u upIt' where p: "p = (u, upIt')" by (cases p)
    show ?thesis
    proof (cases "fetch lastDown downIt")
      case (Inl err)
      then show ?thesis using run ok up p by (simp add: unf)
    next
      case down: (Inr q)
      obtain d downIt' where q: "q = (d, downIt')" by (cases q)
      show ?thesis
      proof (cases u)
        case None
        then show ?thesis using run ok up p down q
          by (cases d) (auto simp: unf dest: drainDelete_accOK)
      next
        case uS: (Some urow)
        show ?thesis
        proof (cases d)
          case None
          then show ?thesis using run ok up p down q uS
            by (auto simp: unf dest: drainInsert_accOK)
        next
          case dS: (Some drow)
          show ?thesis
          proof (cases "CompareData env urow drow okc cols")
            case (Inl err)
            then show ?thesis using run ok up p down q uS dS by (simp add: unf)
          next
            case cd: (Inr r)
            obtain eq cmp where r: "r = (eq, cmp)" by (cases r)
            note facts = up [unfolded p] down [unfolded q] uS dS cd [unfolded r]
            consider (eq) "eq" | (del) "\<not> eq" "cmp = 1" | (ins) "\<not> eq" "cmp = -1"
              | (rep) "\<not> eq" "cmp = 0" | (other) "\<not> eq" "cmp \<noteq> 1" "cmp \<noteq> -1" "cmp \<noteq> 0"
              by blast
            then show ?thesis
            proof cases
              case eq
              have "compareLoop env ti okc cols None upIt' None downIt' acc = Some (acc', e)"
                using run facts eq by (simp add: unf)
              from "1.IH"(1) [OF facts(1) refl facts(2) refl uS dS facts(5) refl eq ok this]
              show ?thesis .
            next
              case del
              let ?acc = "emitFix env ti Delete (Some urow) (Some drow) acc"
              have "compareLoop env ti okc cols (Some urow) upIt' None downIt' ?acc = Some (acc', e)"
                using run facts del by (simp add: unf)
              from "1.IH"(2) [OF facts(1) refl facts(2) refl uS dS facts(5) refl del
                  emitFix_accOK [OF ok] this]
              show ?thesis .
            next
              case ins
              let ?acc = "emitFix env ti Insert (Some urow) (Some drow) acc"
              have ne: "cmp \<noteq> 1" using ins by simp
              have "compareLoop env ti okc cols None upIt' (Some drow) downIt' ?acc = Some (acc', e)"
                using run facts ins by (simp add: unf)
              from "1.IH"(3) [OF facts(1) refl facts(2) refl uS dS facts(5) refl ins(1) ne ins(2)
                  emitFix_accOK [OF ok] this]
              show ?thesis .
            next
              case rep
              let ?acc = "emitFix env ti Replace (Some urow) (Some drow) acc"
              have ne: "cmp \<noteq> 1" "cmp \<noteq> -1" using rep by simp_all
              have "compareLoop env ti okc cols None upIt' None downIt' ?acc = Some (acc', e)"
                using run facts rep by (simp add: unf)
              from "1.IH"(4) [OF facts(1) refl facts(2) refl uS dS facts(5) refl rep(1) ne rep(2)
                  emitFix_accOK [OF ok] this]
              show ?thesis .
            next
              case other
              then show ?thesis using run facts by (simp add: unf)
            qed
          qed
        qed
      qed
    qed
  qed
qed

lemma exampleCompareData_rowA_rowA:
  "exampleCompareData rowA rowA okc cols = Inr (True, 0)"
  by (simp add: exampleCompareData_def)

lemma compareLoop_exEnv:
  "compareLoop exEnv ti okc cols None [Inr rowA, Inr rowB] None [Inr rowA] acc
     = Some (emitFix exEnv ti Insert (Some rowB) None acc, None)"
  apply (subst compareLoop.simps)
  apply (simp add: fetch_def exEnv_def exampleCompareData_rowA_rowA)
  apply (subst compareLoop.simps)
  apply (simp add: fetch_def)
  done

lemma compareRows_exEnv:
  "compareRows exEnv chunk0 dml0
     = Some (dml0\<lparr>sqls := [''INSERT''], rowAdd := 1, rowDelete := 0\<rparr>,
             [(Insert, Some rowB, None)], Inr False)"
proof -
  have "upstream_GetRowsIterator exEnv chunk0 = Inr [Inr rowA, Inr rowB]"
    "downstream_GetRowsIterator exEnv chunk0 = Inr [Inr rowA]"
    "workSource_GetTables exEnv = [idvTable]" "GenerateFixSQL exEnv = exampleFixSQL"
    by (simp_all add: exEnv_def)
  then show ?thesis
    by (simp add: compareRows_def compareLoop_exEnv chunk0_def dml0_def at_def
        GetTableIndex_def emitFix_def exampleFixSQL_def)
qed

text \<open>
  C3, as stated, fails when an iterator fails after a fix was made: with the upstream
  rows \<open>(1, a)\<close> then an error and no downstream row, \<open>compareRows\<close> appends one
  \<open>INSERT\<close> to \<open>dml.sqls\<close> and returns the error without assigning \<open>dml.rowAdd\<close>, which
  stays 0.
\<close>

theorem compareRows_counterexample:
  "compareRows lostConnectionEnv chunk0 dml0
     = Some (dml0\<lparr>sqls := [''INSERT'']\<rparr>, [(Insert, Some rowA, None)],
             Inl (Error ''connection lost''))
   \<and> rowAdd (dml0\<lparr>sqls := [''INSERT'']\<rparr>)
       \<noteq> countKind Insert [(Insert, Some rowA, None)] + countKind Replace [(Insert, Some rowA, None)]"
proof -
  have env: "upstream_GetRowsIterator lostConnectionEnv r = Inr [Inr rowA, Inl ''connection lost'']"
    "downstream_GetRowsIterator lostConnectionEnv r = Inr []"
    "workSource_GetTables lostConnectionEnv = [idvTable]"
    "GenerateFixSQL lostConnectionEnv = exampleFixSQL" for r
    by (simp_all add: lostConnectionEnv_def exEnv_def)
  have loop: "compareLoop lostConnectionEnv ti okc cols None [Inr rowA, Inl ''connection lost'']
                None [] acc
              = Some (emitFix lostConnectionEnv ti Insert (Some rowA) None acc, Some ''connection lost'')"
    for ti okc cols acc
    by (subst compareLoop.simps) (simp add: fetch_def)
  show ?thesis
    by (simp add: compareRows_def env loop chunk0_def dml0_def at_def GetTableIndex_def
        emitFix_def exampleFixSQL_def countKind_def)
qed

text \<open>
  C3, amended. When \<open>compareRows\<close> returns without an error, \<open>dml.rowAdd\<close> is the number
  of \<open>INSERT\<close> fixes plus the number of \<open>REPLACE\<close> fixes, \<open>dml.rowDelete\<close> is the number of
  \<open>DELETE\<close> fixes plus the number of \<open>REPLACE\<close> fixes, the flag returned is true exactly
  when no fix was made, and \<open>dml.sqls\<close> has gained the statement of each fix, in order.
\<close>

theorem compareRows_counts:
  assumes "compareRows env rangeInfo dml = Some (dml', fixes, Inr eq)"
  shows "rowAdd dml' = countKind Insert fixes + countKind Replace fixes
         \<and> rowDelete dml' = countKind Delete fixes + countKind Replace fixes
         \<and> (eq \<longleftrightarrow> fixes = [])
         \<and> sqls dml' = sqls dml @ map (fixSQL env (GetTableIndex rangeInfo)) fixes"
proof -
  let ?ti = "GetTableIndex rangeInfo"
  let ?acc0 = "\<lparr>cSqls = sqls dml, cFixes = [], cRowsAdd = 0, cRowsDelete = 0, cEqual = True\<rparr>"
  have ok0: "accOK env ?ti (sqls dml) ?acc0"
    by (simp add: accOK_def countKind_def)
  obtain upIt where up: "upstream_GetRowsIterator env rangeInfo = Inr upIt"
    using assms by (cases "upstream_GetRowsIterator env rangeInfo") (auto simp: compareRows_def)
  obtain downIt where down: "downstream_GetRowsIterator env rangeInfo = Inr downIt"
    using assms up
    by (cases "downstream_GetRowsIterator env rangeInfo") (auto simp: compareRows_def)
  obtain workTable where wt: "at (workSource_GetTables env) ?ti = Some workTable"
    using assms up down
    by (cases "at (workSource_GetTables env) ?ti") (auto simp: compareRows_def)
  let ?loop = "compareLoop env ?ti (SelectUniqueOrderKey env (Info workTable))
            (InfoColumns (Info workTable)) None upIt None downIt ?acc0"
  obtain acc err where loop: "?loop = Some (acc, err)"
    using assms up down wt by (cases ?loop) (auto simp: compareRows_def)
  have err: "err = None"
    using assms up down wt loop by (cases err) (auto simp: compareRows_def)
  have run: "?loop = Some (acc, None)" using loop err by simp
  have res: "dml' = dml\<lparr>sqls := cSqls acc, rowAdd := cRowsAdd acc, rowDelete := cRowsDelete acc\<rparr>"
      "fixes = cFixes acc" "eq = cEqual acc"
    using assms up down wt run by (auto simp: compareRows_def)
  from compareLoop_accOK [OF ok0 run] have "accOK env ?ti (sqls dml) acc" .
  then show ?thesis using res by (simp add: accOK_def)
qed

theorem compareRows_witness:
  "compareRows exEnv chunk0 dml0
     = Some (dml0\<lparr>sqls := [''INSERT''], rowAdd := 1, rowDelete := 0\<rparr>,
             [(Insert, Some rowB, None)], Inr False)
   \<and> rowAdd (dml0\<lparr>sqls := [''INSERT''], rowAdd := 1, rowDelete := 0\<rparr>)
       = countKind Insert [(Insert, Some rowB, None)] + countKind Replace [(Insert, Some rowB, None)]"
  using compareRows_counts [OF compareRows_exEnv] compareRows_exEnv by simp

subsection \<open>Bisection\<close>

lemma tableRange1_example:
  "tableRange1 exEnv idvTable [idColumn] [''id'' \<mapsto> ''5''] chunk0 = lowerHalf"
  "tableRange1 binEnv idvTable [idColumn] [''id'' \<mapsto> ''5''] chunk0 = lowerHalf"
  by (simp_all add: tableRange1_def binEnv_def exEnv_def exampleUpdate_def idColumn_def
      midValue_def chunk0_def lowerHalf_def)

lemma tableRange2_example:
  "tableRange2 exEnv idvTable [idColumn] [''id'' \<mapsto> ''5''] chunk0 = upperHalf"
  "tableRange2 binEnv idvTable [idColumn] [''id'' \<mapsto> ''5''] chunk0 = upperHalf"
  by (simp_all add: tableRange2_def binEnv_def exEnv_def exampleUpdate_def idColumn_def
      midValue_def chunk0_def upperHalf_def)

lemma binEnv_fields:
  "SplitThreshold binEnv = 1000"
  "GetApproximateMidBySize binEnv t cs r c = Inr [''id'' \<mapsto> ''5'']"
  "checksumOf binEnv lowerHalf = (True, 600, None)"
  "checksumOf binEnv upperHalf = (False, 600, None)"
  by (simp_all add: binEnv_def exEnv_def checksumOf_def compareChecksumAndGetCount_def
      hasLowerBound_def lowerHalf_def upperHalf_def chunk0_def)

lemma exEnv_fields:
  "SplitThreshold exEnv = 1000"
  "GetApproximateMidBySize exEnv t cs r c = Inr [''id'' \<mapsto> ''5'']"
  "checksumOf exEnv r = (False, 2, None)"
  by (simp_all add: exEnv_def checksumOf_def compareChecksumAndGetCount_def)

text \<open>
  C2, as stated, fails when the counts of the two halves do not add up to the count of
  the parent: both halves are checksummed without error and both differ, yet
  \<open>binSearch\<close> ends in \<open>log.Fatal\<close> instead of returning the parent range. Here the
  parent was counted with 1500 rows and each half is counted with 2.
\<close>

theorem binSearch_counterexample:
  "binSearch exEnv idvTable [idColumn] chunk0 1500 = Some (Inl (Fatal ''the count is not correct''))
   \<and> checksumOf exEnv (tableRange1 exEnv idvTable [idColumn] [''id'' \<mapsto> ''5''] chunk0)
       = (False, 2, None)
   \<and> checksumOf exEnv (tableRange2 exEnv idvTable [idColumn] [''id'' \<mapsto> ''5''] chunk0)
       = (False, 2, None)"
  by (subst binSearch.simps) (simp add: exEnv_fields word_sle_eq)

text \<open>
  C2, amended. For a range that \<open>binSearch\<close> splits (its count is above the threshold
  and the middle values were found) into two halves that are both checksummed without
  error: if the counts of the halves do not add up to the count of the range the run is
  fatal, whatever the two checksums say; otherwise, if both halves differ it returns
  the range unchanged, and if exactly one differs it returns what the recursion on that
  half, with the count of that half, returns; if both halves are equal the run is
  fatal, whatever the counts are.
\<close>

theorem binSearch_cases:
  assumes "\<not> cnt \<le>s SplitThreshold env"
    and "GetApproximateMidBySize env tableDiff indexColumns tableRange cnt = Inr midValues"
    and "checksumOf env (tableRange1 env tableDiff indexColumns midValues tableRange)
           = (isEqual1, count1, None)"
    and "checksumOf env (tableRange2 env tableDiff indexColumns midValues tableRange)
           = (isEqual2, count2, None)"
  shows "(count1 + count2 \<noteq> cnt \<longrightarrow>
            binSearch env tableDiff indexColumns tableRange cnt
              = Some (Inl (Fatal ''the count is not correct'')))
       \<and> (count1 + count2 = cnt \<and> \<not> isEqual1 \<and> \<not> isEqual2 \<longrightarrow>
            binSearch env tableDiff indexColumns tableRange cnt = Some (Inr tableRange))
       \<and> (count1 + count2 = cnt \<and> \<not> isEqual1 \<and> isEqual2 \<longrightarrow>
            binSearch env tableDiff indexColumns tableRange cnt
              = binSearch env tableDiff indexColumns
                  (tableRange1 env tableDiff indexColumns midValues tableRange) count1)
       \<and> (count1 + count2 = cnt \<and> isEqual1 \<and> \<not> isEqual2 \<longrightarrow>
            binSearch env tableDiff indexColumns tableRange cnt
              = binSearch env tableDiff indexColumns
                  (tableRange2 env tableDiff indexColumns midValues tableRange) count2)
       \<and> (isEqual1 \<and> isEqual2 \<longrightarrow>
            (\<exists>m. binSearch env tableDiff indexColumns tableRange cnt = Some (Inl (Fatal m))))"
proof -
  have unf: "binSearch env tableDiff indexColumns tableRange cnt =
      (if count1 + count2 \<noteq> cnt then Some (Inl (Fatal ''the count is not correct''))
       else if \<not> isEqual1 \<and> \<not> isEqual2 then Some (Inr tableRange)
       else if \<not> isEqual1 then
         binSearch env tableDiff indexColumns
           (tableRange1 env tableDiff indexColumns midValues tableRange) count1
       else if \<not> isEqual2 then
         binSearch env tableDiff indexColumns
           (tableRange2 env tableDiff indexColumns midValues tableRange) count2
       else Some (Inl (Fatal ''the isEqual1 and isEqual2 cannot be both true'')))"
    by (subst binSearch.simps) (simp add: assms)
  show ?thesis
    by (simp add: unf)
qed

text \<open>
  Two runs: a range of 1200 rows whose halves have 600 rows each and whose upper half
  alone differs, where the search ends in the upper half; and a range counted with 1500
  rows whose lower half is equal and whose halves have 600 rows each, where the run is
  fatal.
\<close>

theorem binSearch_witness:
  "binSearch binEnv idvTable [idColumn] chunk0 1200 = Some (Inr upperHalf)
   \<and> binSearch binEnv idvTable [idColumn] chunk0 1500
       = Some (Inl (Fatal ''the count is not correct''))
   \<and> checksumOf binEnv lowerHalf = (True, 600, None)
   \<and> checksumOf binEnv upperHalf = (False, 600, None)
   \<and> \<not> (1200 :: 64 word) \<le>s SplitThreshold binEnv"
proof -
  have thr: "\<not> (1200 :: 64 word) \<le>s SplitThreshold binEnv"
    by (simp add: binEnv_fields word_sle_eq)
  have thr': "\<not> (1500 :: 64 word) \<le>s SplitThreshold binEnv"
    by (simp add: binEnv_fields word_sle_eq)
  have mid: "GetApproximateMidBySize binEnv idvTable [idColumn] chunk0 c = Inr [''id'' \<mapsto> ''5'']"
    for c by (rule binEnv_fields)
  have c1: "checksumOf binEnv (tableRange1 binEnv idvTable [idColumn] [''id'' \<mapsto> ''5''] chunk0)
              = (True, 600, None)"
    by (simp add: tableRange1_example binEnv_fields)
  have c2: "checksumOf binEnv (tableRange2 binEnv idvTable [idColumn] [''id'' \<mapsto> ''5''] chunk0)
              = (False, 600, None)"
    by (simp add: tableRange2_example binEnv_fields)
  have leaf: "binSearch binEnv idvTable [idColumn] upperHalf 600 = Some (Inr upperHalf)"
    by (subst binSearch.simps) (simp add: binEnv_fields word_sle_eq)
  from binSearch_cases [OF thr mid c1 c2] leaf
  have a: "binSearch binEnv idvTable [idColumn] chunk0 1200 = Some (Inr upperHalf)"
    by (simp add: tableRange2_example)
  from binSearch_cases [OF thr' mid c1 c2]
  have b: "binSearch binEnv idvTable [idColumn] chunk0 1500
             = Some (Inl (Fatal ''the count is not correct''))"
    by simp
  from a b show ?thesis using thr by (simp add: binEnv_fields)
qed

subsection \<open>The chunk task\<close>

lemma compareRows_panic:
  "compareRows env info dml = Some (dml', fixes, Inl (Panic m)) \<Longrightarrow> dml' = dml"
  by (auto simp: compareRows_def split: sum.splits option.splits prod.splits)

lemma finish_emitted:
  "emitted (finish rangeInfo tableDiff state isEqual dml calls) = Some d
   \<Longrightarrow> State (node d) = state \<and> sqls d = sqls dml"
  by (auto simp: finish_def)

lemma finish_ret: "ret (finish rangeInfo tableDiff state isEqual dml calls) = Inr isEqual"
  by (simp add: finish_def)

lemma reconcile_emitted:
  assumes "reconcile env rangeInfo tableDiff isEqual dml info calls = Some res"
    and "emitted res = Some d"
  shows "State (node d) = FailedState \<or> ((\<exists>m. ret res = Inl (Panic m)) \<and> d = dml)"
proof -
  from assms(1) obtain dml' fxs r where cr: "compareRows env info dml = Some (dml', fxs, r)"
    by (auto simp: reconcile_def split: option.splits)
  show ?thesis
  proof (cases r)
    case (Inr b)
    then show ?thesis using assms cr by (auto simp: reconcile_def dest: finish_emitted)
  next
    case (Inl f)
    show ?thesis
    proof (cases f)
      case (Error e)
      then show ?thesis using assms cr Inl by (auto simp: reconcile_def dest: finish_emitted)
    next
      case (Panic m)
      then have "dml' = dml" using cr Inl compareRows_panic by blast
      then show ?thesis using assms cr Inl Panic by (auto simp: reconcile_def panicked_def)
    next
      case (Fatal m)
      then show ?thesis using assms cr Inl by (auto simp: reconcile_def)
    qed
  qed
qed

text \<open>
  What \<open>consume\<close> emits, by the outcome of its checksum stage: a range of type \<open>Empty\<close>
  gives the state \<open>Ignore\<close>; a checksum error, or a mismatch with \<open>exportFixSQL\<close> set,
  gives \<open>Failed\<close> unless the function panics, in which case the \<open>ChunkDML\<close> is the
  initial one; everything else gives \<open>Success\<close> and no statement.
\<close>

lemma consume_emitted:
  assumes "consume env rangeInfo = Some res" and "emitted res = Some d"
  shows "if Type (ChunkRange rangeInfo) = Empty
         then State (node d) = IgnoreState \<and> sqls d = []
         else if checksumErrored env rangeInfo \<or> (checksumDiffers env rangeInfo \<and> exportFixSQL env)
         then State (node d) = FailedState
              \<or> ((\<exists>m. ret res = Inl (Panic m)) \<and> State (node d) = UnsetState \<and> sqls d = [])
         else (State (node d) = SuccessState
               \<or> ((\<exists>m. ret res = Inl (Panic m)) \<and> State (node d) = UnsetState)) \<and> sqls d = []"
proof -
  let ?dml = "\<lparr>node = ToNode rangeInfo, sqls = [], rowAdd = 0, rowDelete = 0\<rparr>"
  have init: "State (node ?dml) = UnsetState" "sqls ?dml = []" by (simp_all add: ToNode_def)
  show ?thesis
  proof (cases "Type (ChunkRange rangeInfo) = Empty")
    case True
    then show ?thesis using assms by (auto simp: consume_def)
  next
    case ne: False
    show ?thesis
    proof (cases "at (downstream_GetTables env) (GetTableIndex rangeInfo)")
      case None
      then have "res = panicked ?dml ''index out of range''"
        using assms(1) ne by (simp add: consume_def)
      then show ?thesis using assms(2) ne init by (auto simp: panicked_def)
    next
      case (Some tableDiff)
      obtain isEqual cnt err where ck: "checksumOf env rangeInfo = (isEqual, cnt, err)"
        by (cases "checksumOf env rangeInfo") auto
      show ?thesis
      proof (cases err)
        case (Some e)
        then have "res = finish rangeInfo tableDiff FailedState isEqual ?dml
                     [SetTableMeetError (Schema tableDiff) (Table tableDiff) e]"
          using assms(1) ne \<open>at (downstream_GetTables env) (GetTableIndex rangeInfo) = Some tableDiff\<close> ck
          by (simp add: consume_def)
        then have "State (node d) = FailedState" using assms(2) finish_emitted by blast
        moreover have "checksumErrored env rangeInfo" using ck Some by (simp add: checksumErrored_def)
        ultimately show ?thesis using ne by simp
      next
        case None
        have ne_err: "\<not> checksumErrored env rangeInfo" using ck None by (simp add: checksumErrored_def)
        have diff: "checksumDiffers env rangeInfo \<longleftrightarrow> \<not> isEqual"
          using ck None by (simp add: checksumDiffers_def)
        note td = \<open>at (downstream_GetTables env) (GetTableIndex rangeInfo) = Some tableDiff\<close>
        show ?thesis
        proof (cases "\<not> isEqual \<and> exportFixSQL env")
          case False
          then have "res = finish rangeInfo tableDiff SuccessState isEqual ?dml []"
            using assms(1) ne td ck None by (auto simp: consume_def)
          then have "State (node d) = SuccessState \<and> sqls d = []"
            using assms(2) finish_emitted by fastforce
          then show ?thesis using ne ne_err diff False by auto
        next
          case True
          have cond: "checksumDiffers env rangeInfo \<and> exportFixSQL env" using True diff by simp
          have "State (node d) = FailedState
              \<or> ((\<exists>m. ret res = Inl (Panic m)) \<and> State (node d) = UnsetState \<and> sqls d = [])"
          proof (cases "at (workSource_GetTables env) (GetTableIndex rangeInfo)")
            case None
            then have "res = panicked ?dml ''index out of range''"
              using assms(1) ne td ck \<open>err = None\<close> True by (simp add: consume_def)
            then show ?thesis using assms(2) init by (auto simp: panicked_def)
          next
            case (Some workTable)
            let ?bin = "if SplitThreshold env <s cnt
                        then BinGenerate env (workSource_GetTables env) rangeInfo cnt
                        else Some (Inr rangeInfo)"
            from assms(1) obtain bin where bin: "?bin = Some bin"
              using ne td ck \<open>err = None\<close> True Some
              by (cases ?bin) (auto simp: consume_def)
            have step: "(case bin of
                     Inl (Fatal m) \<Rightarrow>
                       Some \<lparr>emitted = None, reportCalls = [], ret = Inl (Fatal m)\<rparr>
                   | Inl (Panic m) \<Rightarrow> Some (panicked ?dml m)
                   | Inl (Error e) \<Rightarrow>
                       reconcile env rangeInfo tableDiff False ?dml rangeInfo
                         [SetTableMeetError (Schema tableDiff) (Table tableDiff) e]
                   | Inr info \<Rightarrow> reconcile env rangeInfo tableDiff False ?dml info []) = Some res"
              using assms(1) ne td ck \<open>err = None\<close> True Some bin
              by (simp add: consume_def Let_def del: if_split cong: if_cong)
            show ?thesis
            proof (cases bin)
              case (Inr info)
              then have "reconcile env rangeInfo tableDiff False ?dml info [] = Some res"
                using step by simp
              from reconcile_emitted [OF this assms(2)] show ?thesis using init by auto
            next
              case (Inl f)
              show ?thesis
              proof (cases f)
                case (Error e)
                then have "reconcile env rangeInfo tableDiff False ?dml rangeInfo
                     [SetTableMeetError (Schema tableDiff) (Table tableDiff) e] = Some res"
                  using step Inl by simp
                from reconcile_emitted [OF this assms(2)] show ?thesis using init by auto
              next
                case (Panic m)
                then have "res = panicked ?dml m" using step Inl by simp
                then show ?thesis using assms(2) init by (auto simp: panicked_def)
              next
                case (Fatal m)
                then show ?thesis using step Inl assms(2) by auto
              qed
            qed
          qed
          then show ?thesis using ne cond by simp
        qed
      qed
    qed
  qed
qed

lemma consume_exEnv:
  "consume exEnv chunk0
     = Some \<lparr>emitted = Some \<lparr>node = (ToNode chunk0)\<lparr>State := FailedState\<rparr>,
                               sqls = [''INSERT''], rowAdd = 1, rowDelete = 0\<rparr>,
             reportCalls = [SetTableDataCheckResult ''db'' ''t'' False 1 0 (Index (ChunkRange chunk0))],
             ret = Inr False\<rparr>"
proof -
  have env: "downstream_GetTables exEnv = [idvTable]" "workSource_GetTables exEnv = [idvTable]"
    "exportFixSQL exEnv" "SplitThreshold exEnv = 1000"
    by (simp_all add: exEnv_def)
  have ty: "Type (ChunkRange chunk0) = Others" "GetTableIndex chunk0 = 0"
    by (simp_all add: chunk0_def GetTableIndex_def)
  have cr: "compareRows exEnv chunk0 \<lparr>node = ToNode chunk0, sqls = [], rowAdd = 0, rowDelete = 0\<rparr>
     = Some (dml0\<lparr>sqls := [''INSERT''], rowAdd := 1, rowDelete := 0\<rparr>,
             [(Insert, Some rowB, None)], Inr False)"
    using compareRows_exEnv by (simp add: dml0_def)
  show ?thesis
    by (simp add: consume_def Let_def ty env at_def exEnv_fields word_sless_alt reconcile_def cr
        finish_def dml0_def idvTable_def)
qed

text \<open>
  C1, as stated, fails when the checksums differ, \<open>exportFixSQL\<close> is set and the row
  comparison finds nothing to fix: both sides return the row \<open>(1, a)\<close> while their
  checksums differ; the node is \<open>Failed\<close>, \<open>sqls\<close> is empty and the checksum stage
  returned no error.
\<close>

theorem consume_failed_counterexample:
  "consume sameRowsEnv chunk0
     = Some \<lparr>emitted = Some \<lparr>node = (ToNode chunk0)\<lparr>State := FailedState\<rparr>,
                               sqls = [], rowAdd = 0, rowDelete = 0\<rparr>,
             reportCalls = [SetTableDataCheckResult ''db'' ''t'' False 0 0 (Index (ChunkRange chunk0))],
             ret = Inr False\<rparr>
   \<and> \<not> checksumErrored sameRowsEnv chunk0"
proof -
  let ?env = sameRowsEnv
  have env: "downstream_GetTables ?env = [idvTable]" "workSource_GetTables ?env = [idvTable]"
    "exportFixSQL ?env" "SplitThreshold ?env = 1000"
    "upstream_GetRowsIterator ?env chunk0 = Inr [Inr rowA]"
    "downstream_GetRowsIterator ?env chunk0 = Inr [Inr rowA]"
    "CompareData ?env = exampleCompareData"
    "checksumOf ?env chunk0 = (False, 2, None)"
    by (simp_all add: sameRowsEnv_def exEnv_def checksumOf_def compareChecksumAndGetCount_def)
  have ty: "Type (ChunkRange chunk0) = Others" "GetTableIndex chunk0 = 0"
    by (simp_all add: chunk0_def GetTableIndex_def)
  have loop: "compareLoop ?env ti okc cols None [Inr rowA] None [Inr rowA] acc = Some (acc, None)"
    for ti okc cols acc
    apply (subst compareLoop.simps)
    apply (simp add: fetch_def env exampleCompareData_rowA_rowA)
    apply (subst compareLoop.simps)
    apply (simp add: fetch_def)
    done
  have cr: "compareRows ?env chunk0 \<lparr>node = ToNode chunk0, sqls = [], rowAdd = 0, rowDelete = 0\<rparr>
     = Some (\<lparr>node = ToNode chunk0, sqls = [], rowAdd = 0, rowDelete = 0\<rparr>, [], Inr True)"
    by (simp add: compareRows_def env ty at_def loop)
  have "consume ?env chunk0
     = Some \<lparr>emitted = Some \<lparr>node = (ToNode chunk0)\<lparr>State := FailedState\<rparr>,
                               sqls = [], rowAdd = 0, rowDelete = 0\<rparr>,
             reportCalls = [SetTableDataCheckResult ''db'' ''t'' False 0 0 (Index (ChunkRange chunk0))],
             ret = Inr False\<rparr>"
    by (simp add: consume_def Let_def ty env at_def word_sless_alt reconcile_def cr
        finish_def idvTable_def)
  moreover have "\<not> checksumErrored ?env chunk0"
    by (simp add: checksumErrored_def env)
  ultimately show ?thesis by simp
qed

text \<open>
  C1, amended. For every \<open>ChunkDML\<close> that \<open>consume\<close> emits: if its \<open>sqls\<close> list is
  non-empty the node's state is \<open>Failed\<close>; the state is \<open>Failed\<close> only if the range is
  not \<open>Empty\<close> and the checksum stage returned an error or found a mismatch with
  \<open>exportFixSQL\<close> set; and when \<open>consume\<close> returns (it does not panic), the state is
  \<open>Failed\<close> if and only if the range is not \<open>Empty\<close> and the checksum stage returned an
  error or found a mismatch with \<open>exportFixSQL\<close> set, whether or not the row comparison
  then emitted a fix.
\<close>

theorem consume_failed_iff:
  assumes "consume env rangeInfo = Some res" and "emitted res = Some d"
  shows "(sqls d \<noteq> [] \<longrightarrow> State (node d) = FailedState)
       \<and> (State (node d) = FailedState \<longrightarrow>
            Type (ChunkRange rangeInfo) \<noteq> Empty
            \<and> (checksumErrored env rangeInfo
                \<or> (checksumDiffers env rangeInfo \<and> exportFixSQL env)))
       \<and> ((\<exists>b. ret res = Inr b) \<longrightarrow>
            (State (node d) = FailedState \<longleftrightarrow>
               Type (ChunkRange rangeInfo) \<noteq> Empty
               \<and> (checksumErrored env rangeInfo
                   \<or> (checksumDiffers env rangeInfo \<and> exportFixSQL env))))"
  using consume_emitted [OF assms] by (auto split: if_splits)

theorem consume_failed_witness:
  "consume exEnv chunk0
     = Some \<lparr>emitted = Some \<lparr>node = (ToNode chunk0)\<lparr>State := FailedState\<rparr>,
                               sqls = [''INSERT''], rowAdd = 1, rowDelete = 0\<rparr>,
             reportCalls = [SetTableDataCheckResult ''db'' ''t'' False 1 0 (Index (ChunkRange chunk0))],
             ret = Inr False\<rparr>
   \<and> Type (ChunkRange chunk0) \<noteq> Empty
   \<and> checksumDiffers exEnv chunk0 \<and> exportFixSQL exEnv"
proof -
  have "Type (ChunkRange chunk0) \<noteq> Empty" by (simp add: chunk0_def)
  moreover have "checksumDiffers exEnv chunk0" by (simp add: checksumDiffers_def exEnv_fields)
  moreover have "exportFixSQL exEnv" by (simp add: exEnv_def)
  moreover note consume_failed_iff [OF consume_exEnv, of
      "\<lparr>node = (ToNode chunk0)\<lparr>State := FailedState\<rparr>,
        sqls = [''INSERT''], rowAdd = 1, rowDelete = 0\<rparr>"]
  ultimately show ?thesis using consume_exEnv by simp
qed

text \<open>
  C4, as stated, fails when \<open>exportFixSQL\<close> is false: the upstream side reports 2 rows
  and the downstream side 1, with different checksums, and the node emitted for this
  range (not \<open>Empty\<close>) has the state \<open>Success\<close>.
\<close>

theorem consume_success_counterexample:
  "consume noExportEnv chunk0
     = Some \<lparr>emitted = Some \<lparr>node = (ToNode chunk0)\<lparr>State := SuccessState\<rparr>,
                               sqls = [], rowAdd = 0, rowDelete = 0\<rparr>,
             reportCalls = [SetTableDataCheckResult ''db'' ''t'' False 0 0 (Index (ChunkRange chunk0))],
             ret = Inr False\<rparr>
   \<and> Type (ChunkRange chunk0) \<noteq> Empty
   \<and> Count (upstream_GetCountAndCrc32 noExportEnv chunk0)
       \<noteq> Count (downstream_GetCountAndCrc32 noExportEnv chunk0)"
  by (simp add: consume_def Let_def noExportEnv_def exEnv_def chunk0_def GetTableIndex_def at_def
      checksumOf_def compareChecksumAndGetCount_def finish_def idvTable_def ToNode_def)

text \<open>
  C4, amended. For every range that is not \<open>Empty\<close>, if the node \<open>consume\<close> emits has
  the state \<open>Success\<close>, then neither side reported a checksum error and, when
  \<open>exportFixSQL\<close> is set, the two sides agreed on both the row count and the CRC32 of
  the range. (With \<open>exportFixSQL\<close> false a range whose checksums differ gives a
  \<open>Success\<close> node; the mismatch is in the value returned and in the report.)
\<close>

theorem consume_success_agrees:
  assumes "consume env rangeInfo = Some res" and "emitted res = Some d"
    and "Type (ChunkRange rangeInfo) \<noteq> Empty" and "State (node d) = SuccessState"
  shows "Err (upstream_GetCountAndCrc32 env rangeInfo) = None
       \<and> Err (downstream_GetCountAndCrc32 env rangeInfo) = None
       \<and> (exportFixSQL env \<longrightarrow>
            Count (upstream_GetCountAndCrc32 env rangeInfo)
              = Count (downstream_GetCountAndCrc32 env rangeInfo)
            \<and> Checksum (upstream_GetCountAndCrc32 env rangeInfo)
              = Checksum (downstream_GetCountAndCrc32 env rangeInfo))"
proof -
  from consume_emitted [OF assms(1,2)] assms(3,4)
  have "\<not> checksumErrored env rangeInfo"
    "\<not> (checksumDiffers env rangeInfo \<and> exportFixSQL env)"
    by (auto split: if_splits)
  then show ?thesis
    by (auto simp: checksumErrored_def checksumDiffers_def checksumOf_def
        compareChecksumAndGetCount_def split: option.splits if_splits)
qed

theorem consume_success_witness:
  "consume agreeEnv chunk0
     = Some \<lparr>emitted = Some \<lparr>node = (ToNode chunk0)\<lparr>State := SuccessState\<rparr>,
                               sqls = [], rowAdd = 0, rowDelete = 0\<rparr>,
             reportCalls = [SetTableDataCheckResult ''db'' ''t'' True 0 0 (Index (ChunkRange chunk0))],
             ret = Inr True\<rparr>
   \<and> Type (ChunkRange chunk0) \<noteq> Empty
   \<and> exportFixSQL agreeEnv
   \<and> Count (upstream_GetCountAndCrc32
               agreeEnv
               chunk0) = 2"
proof -
  let ?env = agreeEnv
  let ?d = "\<lparr>node = (ToNode chunk0)\<lparr>State := SuccessState\<rparr>,
             sqls = [], rowAdd = 0, rowDelete = 0\<rparr>"
  have run: "consume ?env chunk0
     = Some \<lparr>emitted = Some ?d,
             reportCalls = [SetTableDataCheckResult ''db'' ''t'' True 0 0 (Index (ChunkRange chunk0))],
             ret = Inr True\<rparr>"
    by (simp add: consume_def Let_def agreeEnv_def exEnv_def chunk0_def GetTableIndex_def at_def
        checksumOf_def compareChecksumAndGetCount_def finish_def idvTable_def ToNode_def)
  have ne: "Type (ChunkRange chunk0) \<noteq> Empty" by (simp add: chunk0_def)
  have ex: "exportFixSQL ?env" by (simp add: agreeEnv_def exEnv_def)
  have "State (node ?d) = SuccessState" by simp
  from consume_success_agrees [OF run _ ne this] ex run ne show ?thesis
    by (simp add: agreeEnv_def exEnv_def)
qed

subsection \<open>Validation of inserted and updated rows\<close>

lemma fetch_rowsOf:
  "fetch l it = Inr (u, it') \<Longrightarrow> rowsOf u it' = rowsOf l it"
  by (cases l; cases it rule: Next.cases) (auto simp: fetch_def rowsOf_def)

lemma fetch_None:
  "fetch l it = Inr (None, it') \<Longrightarrow> rowsOf l it = {}"
  by (cases l; cases it rule: Next.cases) (auto simp: fetch_def rowsOf_def)

lemma rowsOf_Some: "rowsOf (Some r) it = insert r (rowsOf None it)"
  by (auto simp: rowsOf_def)

lemma drainFailed_rows:
  "drainFailed cond u it acc = Inr failed
   \<Longrightarrow> set acc \<subseteq> set failed
       \<and> (\<forall>x\<in>rowsOf (Some u) it. \<exists>p. getPkValues x cond = Inr p \<and> p \<in> set failed)
       \<and> (\<forall>p\<in>set failed. p \<in> set acc \<or> (\<exists>x\<in>rowsOf (Some u) it. getPkValues x cond = Inr p))"
proof (induction cond u it acc rule: drainFailed.induct)
  case (1 cond u failedRows)
  then show ?case by (auto simp: rowsOf_def split: sum.splits)
next
  case (2 cond u e rest failedRows)
  then show ?case by (auto split: sum.splits)
next
  case (3 cond u row rest failedRows)
  from "3.prems" obtain p where p: "getPkValues u cond = Inr p"
    and run: "drainFailed cond row rest (failedRows @ [p]) = Inr failed"
    by (auto split: sum.splits)
  from "3.IH" [OF p run] have ih: "set (failedRows @ [p]) \<subseteq> set failed"
    "\<forall>x\<in>rowsOf (Some row) rest. \<exists>p. getPkValues x cond = Inr p \<and> p \<in> set failed"
    "\<forall>q\<in>set failed. q \<in> set (failedRows @ [p])
        \<or> (\<exists>x\<in>rowsOf (Some row) rest. getPkValues x cond = Inr q)"
    by auto
  have rows: "rowsOf (Some u) (Inr row # rest) = insert u (rowsOf (Some row) rest)"
    by (auto simp: rowsOf_def)
  have a: "set failedRows \<subseteq> set failed" using ih(1) by simp
  have b: "\<forall>x\<in>rowsOf (Some u) (Inr row # rest). \<exists>p. getPkValues x cond = Inr p \<and> p \<in> set failed"
    using ih(1,2) p unfolding rows by auto
  have c: "\<forall>q\<in>set failed. q \<in> set failedRows
        \<or> (\<exists>x\<in>rowsOf (Some u) (Inr row # rest). getPkValues x cond = Inr q)"
    using ih(3) p unfolding rows by auto
  from a b c show ?case by blast
qed

lemma validateLoop_rows:
  "validateLoop env cond okc cols lastUp upIt lastDown downIt acc = Some (Inr failed)
   \<Longrightarrow> set acc \<subseteq> set failed
       \<and> (\<forall>x\<in>rowsOf lastUp upIt. (\<forall>d\<in>rowsOf lastDown downIt. \<not> sameRow env okc cols x d)
             \<longrightarrow> (\<exists>p. getPkValues x cond = Inr p \<and> p \<in> set failed))
       \<and> (\<forall>p\<in>set failed. p \<in> set acc \<or> (\<exists>x\<in>rowsOf lastUp upIt. getPkValues x cond = Inr p))"
proof (induction env cond okc cols lastUp upIt lastDown downIt acc rule: validateLoop.induct)
  case (1 env cond okc cols lastUp upIt lastDown downIt acc)
  note run = "1.prems"
  note unf = validateLoop.simps [of env cond okc cols lastUp upIt lastDown downIt acc]
  let ?goal = "\<lambda>lu ui ld di a. set a \<subseteq> set failed
       \<and> (\<forall>x\<in>rowsOf lu ui. (\<forall>d\<in>rowsOf ld di. \<not> sameRow env okc cols x d)
             \<longrightarrow> (\<exists>p. getPkValues x cond = Inr p \<and> p \<in> set failed))
       \<and> (\<forall>p\<in>set failed. p \<in> set a \<or> (\<exists>x\<in>rowsOf lu ui. getPkValues x cond = Inr p))"
  obtain u upIt' where up: "fetch lastUp upIt = Inr (u, upIt')"
    using run by (cases "fetch lastUp upIt") (auto simp: unf)
  obtain d downIt' where down: "fetch lastDown downIt = Inr (d, downIt')"
    using run up by (cases "fetch lastDown downIt") (auto simp: unf)
  note R1 = fetch_rowsOf [OF up, symmetric]
  note R2 = fetch_rowsOf [OF down, symmetric]
  show ?case
  proof (cases u)
    case None
    have empty: "rowsOf lastUp upIt = {}" using up None fetch_None by blast
    have "failed = acc" using run up down None by (cases d) (auto simp: unf)
    then show ?thesis using empty by simp
  next
    case uS: (Some urow)
    show ?thesis
    proof (cases d)
      case None
      have "drainFailed cond urow upIt' acc = Inr failed"
        using run up down uS None by (simp add: unf)
      from drainFailed_rows [OF this] show ?thesis unfolding R1 uS by blast
    next
      case dS: (Some drow)
      obtain eq cmp where cd: "CompareData env urow drow okc cols = Inr (eq, cmp)"
        using run up down uS dS by (cases "CompareData env urow drow okc cols") (auto simp: unf)
      note facts = up down uS dS cd
      have U: "rowsOf lastUp upIt = insert urow (rowsOf None upIt')"
        unfolding R1 uS by (rule rowsOf_Some)
      have D: "rowsOf lastDown downIt = insert drow (rowsOf None downIt')"
        unfolding R2 dS by (rule rowsOf_Some)
      consider (eq) "eq" | (del) "\<not> eq" "cmp = 1" | (ins) "\<not> eq" "cmp = -1"
        | (rep) "\<not> eq" "cmp = 0" | (other) "\<not> eq" "cmp \<noteq> 1" "cmp \<noteq> -1" "cmp \<noteq> 0"
        by blast
      then show ?thesis
      proof cases
        case eq
        have same: "sameRow env okc cols urow drow" using cd eq by (simp add: sameRow_def)
        have "validateLoop env cond okc cols None upIt' None downIt' acc = Some (Inr failed)"
          using run facts eq by (simp add: unf)
        from "1.IH"(1) [OF up refl down refl dS uS cd refl eq this]
        have ih: "?goal None upIt' None downIt' acc" .
        show ?thesis unfolding U D using ih same by auto
      next
        case del
        have "validateLoop env cond okc cols (Some urow) upIt' None downIt' acc = Some (Inr failed)"
          using run facts del by (simp add: unf)
        from "1.IH"(2) [OF up refl down refl dS uS cd refl del this]
        have ih: "?goal (Some urow) upIt' None downIt' acc" .
        show ?thesis unfolding U D using ih unfolding rowsOf_Some by auto
      next
        case ins
        have ne: "cmp \<noteq> 1" using ins by simp
        obtain p where p: "getPkValues urow cond = Inr p"
          using run facts ins by (cases "getPkValues urow cond") (auto simp: unf)
        have "validateLoop env cond okc cols None upIt' (Some drow) downIt' (acc @ [p])
                = Some (Inr failed)"
          using run facts ins p by (simp add: unf)
        from "1.IH"(3) [OF up refl down refl dS uS cd refl ins(1) ne ins(2) p this]
        have ih: "?goal None upIt' (Some drow) downIt' (acc @ [p])" .
        show ?thesis unfolding U D using ih p unfolding rowsOf_Some by auto
      next
        case rep
        have ne: "cmp \<noteq> 1" "cmp \<noteq> -1" using rep by simp_all
        obtain p where p: "getPkValues urow cond = Inr p"
          using run facts rep by (cases "getPkValues urow cond") (auto simp: unf)
        have "validateLoop env cond okc cols None upIt' None downIt' (acc @ [p])
                = Some (Inr failed)"
          using run facts rep p by (simp add: unf)
        from "1.IH"(4) [OF up refl down refl dS uS cd refl rep(1) ne rep(2) p this]
        have ih: "?goal None upIt' None downIt' (acc @ [p])" .
        show ?thesis unfolding U D using ih p by auto
      next
        case other
        then show ?thesis using run facts by (simp add: unf)
      qed
    qed
  qed
qed

lemma getPkValues_rowA: "getPkValues rowA idvCond = Inr [''1'']"
  by (simp add: getPkValues_def idvCond_def idvTable_def idIndex_def rowA_def)

lemma getPkValues_rowB: "getPkValues rowB idvCond = Inr [''2'']"
  by (simp add: getPkValues_def idvCond_def idvTable_def idIndex_def rowB_def)

lemma validateInsertAndUpdateRows_exEnv:
  "validateInsertAndUpdateRows exEnv [change1, change2] idvCond = Some (Inr [[''2'']])"
proof -
  have env: "UseBinlogForCompare exEnv = False"
    "upstream_GetRows exEnv idvCond = Inr [Inr rowA, Inr rowB]"
    "downstream_GetRows exEnv idvCond = Inr [Inr rowA]"
    "CompareData exEnv = exampleCompareData"
    by (simp_all add: exEnv_def)
  have "validateLoop exEnv idvCond okc cols None [Inr rowA, Inr rowB] None [Inr rowA] []
          = Some (Inr [[''2'']])" for okc cols
    apply (subst validateLoop.simps)
    apply (simp add: fetch_def env exampleCompareData_rowA_rowA)
    apply (subst validateLoop.simps)
    apply (simp add: fetch_def getPkValues_rowB)
    done
  then show ?thesis
    by (simp add: validateInsertAndUpdateRows_def upstreamRowsIterator_def env)
qed

text \<open>
  With \<open>UseBinlogForCompare\<close> set the upstream rows are those of the batch, sorted by
  primary key; the result for the example batch is the same.
\<close>

lemma upstreamRowsIterator_binlogEnv:
  "upstreamRowsIterator binlogEnv [change2, change1] idvCond = Inr [Inr rowA, Inr rowB]"
  by (simp add: upstreamRowsIterator_def binlogEnv_def exEnv_def idvCond_def
      getRowChangeIterator_def exampleSort_def lessRow_def change1_def change2_def less_char_def
      rowOf_def idvTable_def idvInfo_def at_def colDataOf_def rowA_def rowB_def)

lemma validateInsertAndUpdateRows_binlogEnv:
  "validateInsertAndUpdateRows binlogEnv [change2, change1] idvCond = Some (Inr [[''2'']])"
proof -
  have env: "downstream_GetRows binlogEnv idvCond = Inr [Inr rowA]"
    "CompareData binlogEnv = exampleCompareData"
    by (simp_all add: binlogEnv_def exEnv_def)
  have "validateLoop binlogEnv idvCond okc cols None [Inr rowA, Inr rowB] None [Inr rowA] []
          = Some (Inr [[''2'']])" for okc cols
    apply (subst validateLoop.simps)
    apply (simp add: fetch_def env exampleCompareData_rowA_rowA)
    apply (subst validateLoop.simps)
    apply (simp add: fetch_def getPkValues_rowB)
    done
  then show ?thesis
    by (simp add: validateInsertAndUpdateRows_def upstreamRowsIterator_binlogEnv env)
qed

lemma getPkValues_rowA_cond1: "getPkValues rowA cond1 = Inr [''1'']"
  by (simp add: getPkValues_def cond1_def idvTable_def idIndex_def rowA_def)

text \<open>
  C5, as stated, fails for a primary key that is present only downstream: the batch
  holds an update of the row 1, the upstream query finds no row and the downstream
  query finds \<open>(1, a)\<close>; the loop leaves at its first \<open>break\<close> and no failed row is
  returned.
\<close>

theorem validateInsertAndUpdateRows_counterexample:
  "validateInsertAndUpdateRows downstreamOnlyEnv [update1] cond1 = Some (Inr [])
   \<and> upstream_GetRows downstreamOnlyEnv cond1 = Inr []
   \<and> downstream_GetRows downstreamOnlyEnv cond1 = Inr [Inr rowA]
   \<and> getPkValues rowA cond1 = Inr [''1'']"
proof -
  have env: "\<not> UseBinlogForCompare downstreamOnlyEnv"
    "upstream_GetRows downstreamOnlyEnv cond1 = Inr []"
    "downstream_GetRows downstreamOnlyEnv cond1 = Inr [Inr rowA]"
    by (simp_all add: downstreamOnlyEnv_def exEnv_def)
  have "validateLoop env cond1 okc cols None [] None [Inr rowA] [] = Some (Inr [])"
    for env okc cols
    by (subst validateLoop.simps) (simp add: fetch_def)
  then show ?thesis
    by (simp add: validateInsertAndUpdateRows_def upstreamRowsIterator_def env
        getPkValues_rowA_cond1)
qed

text \<open>
  C5, amended. When \<open>validateInsertAndUpdateRows\<close> returns its failed rows without an
  error, the primary key of every upstream row for which the downstream result has no
  row that \<open>CompareData\<close> calls equal (its key is absent downstream, or present with a
  different payload) is among them, and every failed row is the primary key of an
  upstream row: a key present only downstream is skipped, not reported.
\<close>

theorem validateInsertAndUpdateRows_failed_rows:
  assumes "validateInsertAndUpdateRows env rs cond = Some (Inr failedRows)"
    and "upstreamRowsIterator env rs cond = Inr upIt"
    and "downstream_GetRows env cond = Inr downIt"
  shows "(\<forall>u. Inr u \<in> set upIt
            \<longrightarrow> (\<forall>d. Inr d \<in> set downIt
                   \<longrightarrow> \<not> sameRow env (SelectUniqueOrderKey env (Info (CondTable cond)))
                                 (InfoColumns (Info (CondTable cond))) u d)
            \<longrightarrow> (\<exists>p. getPkValues u cond = Inr p \<and> p \<in> set failedRows))
         \<and> (\<forall>p\<in>set failedRows. \<exists>u. Inr u \<in> set upIt \<and> getPkValues u cond = Inr p)"
proof -
  have "validateLoop env cond (SelectUniqueOrderKey env (Info (CondTable cond)))
          (InfoColumns (Info (CondTable cond))) None upIt None downIt [] = Some (Inr failedRows)"
    using assms by (simp add: validateInsertAndUpdateRows_def)
  from validateLoop_rows [OF this] show ?thesis
    by (simp add: rowsOf_def)
qed

theorem validateInsertAndUpdateRows_witness:
  "validateInsertAndUpdateRows exEnv [change1, change2] idvCond = Some (Inr [[''2'']])
   \<and> getPkValues rowB idvCond = Inr [''2'']
   \<and> \<not> sameRow exEnv (SelectUniqueOrderKey exEnv (Info (CondTable idvCond)))
                 (InfoColumns (Info (CondTable idvCond))) rowB rowA"
proof -
  have up: "upstreamRowsIterator exEnv [change1, change2] idvCond = Inr [Inr rowA, Inr rowB]"
    by (simp add: upstreamRowsIterator_def exEnv_def)
  have down: "downstream_GetRows exEnv idvCond = Inr [Inr rowA]"
    by (simp add: exEnv_def)
  have ns: "\<not> sameRow exEnv (SelectUniqueOrderKey exEnv (Info (CondTable idvCond)))
                 (InfoColumns (Info (CondTable idvCond))) rowB rowA"
    by (simp add: sameRow_def exEnv_def exampleCompareData_def rowA_def rowB_def)
  from validateInsertAndUpdateRows_failed_rows [OF validateInsertAndUpdateRows_exEnv up down]
    validateInsertAndUpdateRows_exEnv getPkValues_rowB ns
  show ?thesis by simp
qed

subsection \<open>The binlog row iterator\<close>

lemma lessPk_same_length:
  "length l = length r \<Longrightarrow> lessPk l r = Inr (l < r)"
  by (induction l r rule: list_induct2) auto

text \<open>
  For row changes whose \<open>pk\<close> slices have one length the closure does not panic and is
  the order of the \<open>pk\<close> slices, a transitive ordering.
\<close>

lemma lessRow_same_length:
  assumes "\<forall>r\<in>set rs. length (pk r) = n"
  shows "\<forall>x\<in>set rs. \<forall>y\<in>set rs. lessRow x y = Inr (pk x < pk y)"
  using assms by (simp add: lessRow_def lessPk_same_length)

lemma transitiveOrdering_pk:
  "transitiveOrdering (\<lambda>x y. pk x < pk y) A"
  unfolding transitiveOrdering_def
  by (intro conjI ballI impI) (auto simp: not_less)

lemma transitiveOrderingD:
  assumes "transitiveOrdering lt A"
  shows "x \<in> A \<Longrightarrow> \<not> lt x x"
    and "x \<in> A \<Longrightarrow> y \<in> A \<Longrightarrow> z \<in> A \<Longrightarrow> lt x y \<Longrightarrow> lt y z \<Longrightarrow> lt x z"
    and "x \<in> A \<Longrightarrow> y \<in> A \<Longrightarrow> z \<in> A \<Longrightarrow> \<not> lt x y \<Longrightarrow> \<not> lt y z \<Longrightarrow> \<not> lt x z"
  using assms unfolding transitiveOrdering_def by blast+

lemma transitiveOrdering_mono:
  assumes "transitiveOrdering lt A" and "B \<subseteq> A"
  shows "transitiveOrdering lt B"
  unfolding transitiveOrdering_def
proof (intro conjI ballI impI)
  fix x assume "x \<in> B"
  then show "\<not> lt x x" using transitiveOrderingD(1) [OF assms(1)] assms(2) by blast
next
  fix x y z assume "x \<in> B" "y \<in> B" "z \<in> B" "lt x y \<and> lt y z"
  then show "lt x z" using transitiveOrderingD(2) [OF assms(1), of x y z] assms(2) by blast
next
  fix x y z assume "x \<in> B" "y \<in> B" "z \<in> B" "\<not> lt x y \<and> \<not> lt y z"
  then show "\<not> lt x z" using transitiveOrderingD(3) [OF assms(1), of x y z] assms(2) by blast
qed

text \<open>The insertion sort of the examples meets the contract.\<close>

lemma sink_sorted:
  assumes "\<forall>y\<in>set (x # before). \<forall>z\<in>set (x # before). lessFn y z = Inr (lt y z)"
    and "transitiveOrdering lt (set (x # before))"
    and "sorted_wrt (\<lambda>a b. \<not> lt a b) before"
  shows "\<exists>zs. sink lessFn x before = Inr zs \<and> mset zs = add_mset x (mset before)
            \<and> sorted_wrt (\<lambda>a b. \<not> lt a b) zs"
  using assms
proof (induction before)
  case Nil
  show ?case by simp
next
  case (Cons y before)
  have less: "lessFn x y = Inr (lt x y)" using Cons.prems(1) by simp
  note tr = Cons.prems(2)
  show ?case
  proof (cases "lt x y")
    case False
    have "\<not> lt x z" if "z \<in> set before" for z
    proof -
      have "\<not> lt y z" using Cons.prems(3) that by simp
      with False that show ?thesis
        using transitiveOrderingD(3) [OF tr, of x y z] by simp
    qed
    then have "sorted_wrt (\<lambda>a b. \<not> lt a b) (x # y # before)"
      using False Cons.prems(3) by simp
    then show ?thesis using less False by simp
  next
    case True
    have 1: "\<forall>a\<in>set (x # before). \<forall>b\<in>set (x # before). lessFn a b = Inr (lt a b)"
      using Cons.prems(1) by simp
    have 2: "transitiveOrdering lt (set (x # before))"
      by (rule transitiveOrdering_mono [OF tr]) auto
    have 3: "sorted_wrt (\<lambda>a b. \<not> lt a b) before"
      using Cons.prems(3) by simp
    from Cons.IH [OF 1 2 3] obtain zs where zs: "sink lessFn x before = Inr zs"
      "mset zs = add_mset x (mset before)" "sorted_wrt (\<lambda>a b. \<not> lt a b) zs"
      by auto
    have set_zs: "set zs = insert x (set before)"
      using zs(2) by (metis set_mset_add_mset_insert set_mset_mset)
    have "\<not> lt y x"
      using True transitiveOrderingD(1) [OF tr, of x] transitiveOrderingD(2) [OF tr, of x y x]
      by auto
    then have "sorted_wrt (\<lambda>a b. \<not> lt a b) (y # zs)"
      using zs(3) set_zs Cons.prems(3) by simp
    then show ?thesis using less True zs by simp
  qed
qed

lemma sinkAll_sorted:
  assumes "\<forall>y\<in>set (placed @ xs). \<forall>z\<in>set (placed @ xs). lessFn y z = Inr (lt y z)"
    and "transitiveOrdering lt (set (placed @ xs))"
    and "sorted_wrt (\<lambda>a b. \<not> lt a b) placed"
  shows "\<exists>ys. sinkAll lessFn placed xs = Inr ys \<and> mset ys = mset placed + mset xs
            \<and> sorted_wrt (\<lambda>a b. \<not> lt b a) ys"
  using assms
proof (induction xs arbitrary: placed)
  case Nil
  then show ?case by (simp add: sorted_wrt_rev)
next
  case (Cons x xs)
  have 1: "\<forall>y\<in>set (x # placed). \<forall>z\<in>set (x # placed). lessFn y z = Inr (lt y z)"
    using Cons.prems(1) by simp
  have 2: "transitiveOrdering lt (set (x # placed))"
    by (rule transitiveOrdering_mono [OF Cons.prems(2)]) auto
  from sink_sorted [OF 1 2 Cons.prems(3)] obtain zs where zs: "sink lessFn x placed = Inr zs"
    "mset zs = add_mset x (mset placed)" "sorted_wrt (\<lambda>a b. \<not> lt a b) zs"
    by auto
  have set_zs: "set zs = insert x (set placed)"
    using zs(2) by (metis set_mset_add_mset_insert set_mset_mset)
  have eq: "set (zs @ xs) = set (placed @ x # xs)" using set_zs by auto
  have 4: "\<forall>y\<in>set (zs @ xs). \<forall>z\<in>set (zs @ xs). lessFn y z = Inr (lt y z)"
    unfolding eq using Cons.prems(1) by simp
  have 5: "transitiveOrdering lt (set (zs @ xs))"
    unfolding eq using Cons.prems(2) by simp
  from Cons.IH [OF 4 5 zs(3)] obtain ys where "sinkAll lessFn zs xs = Inr ys"
    "mset ys = mset zs + mset xs" "sorted_wrt (\<lambda>a b. \<not> lt b a) ys" by auto
  then show ?case using zs by simp
qed

lemma exampleSort_contract: "sortContract exampleSort"
  unfolding sortContract_def exampleSort_def
proof (intro allI impI)
  fix lessFn :: "'a \<Rightarrow> 'a \<Rightarrow> failure + bool" and lt xs
  assume a: "(\<forall>x\<in>set xs. \<forall>y\<in>set xs. lessFn x y = Inr (lt x y)) \<and> transitiveOrdering lt (set xs)"
  then have 1: "\<forall>y\<in>set ([] @ xs). \<forall>z\<in>set ([] @ xs). lessFn y z = Inr (lt y z)"
    and 2: "transitiveOrdering lt (set ([] @ xs))" by simp_all
  have 3: "sorted_wrt (\<lambda>a b. \<not> lt a b) []" by simp
  from sinkAll_sorted [OF 1 2 3]
  show "\<exists>ys. sinkAll lessFn [] xs = Inr ys \<and> mset ys = mset xs \<and> sorted_wrt (\<lambda>a b. \<not> lt b a) ys"
    by simp
qed

lemma fillColMap_total:
  "\<forall>c\<in>set cs. 0 \<le> Offset c \<and> Offset c < int (length d) \<Longrightarrow> \<exists>m'. fillColMap d cs m = Inr m'"
  by (induction cs arbitrary: m) (auto simp: at_def)

lemma buildRows_total:
  assumes "\<forall>r\<in>set rs. \<forall>c\<in>set (InfoColumns (Info t)). 0 \<le> Offset c \<and> Offset c < int (length (data r))"
  shows "\<exists>it. buildRows t rs = Inr it \<and> length it = length rs \<and> map Inr it = map (rowOf t) rs"
  using assms
proof (induction rs)
  case Nil
  show ?case by simp
next
  case (Cons r rs)
  then obtain it where it: "buildRows t rs = Inr it" "length it = length rs"
    "map Inr it = map (rowOf t) rs" by auto
  have "\<forall>c\<in>set (InfoColumns (Info t)). 0 \<le> Offset c \<and> Offset c < int (length (data r))"
    using Cons.prems by simp
  from fillColMap_total [OF this] obtain m where "rowOf t r = Inr m"
    unfolding rowOf_def by blast
  then show ?case using it by simp
qed

lemma exampleSort_row9_row10:
  "exampleSort lessRow [row9, row10] = Inr [row10, row9]"
  by (simp add: exampleSort_def lessRow_def row9_def row10_def less_char_def)

lemma rowOf_row9_row10:
  "rowOf idvTable row9 = Inr rowNine"
  "rowOf idvTable row10 = Inr rowTen"
  by (simp_all add: rowOf_def row9_def row10_def rowNine_def rowTen_def idvTable_def
      idvInfo_def at_def colDataOf_def)

lemma getRowChangeIterator_row9_row10:
  "getRowChangeIterator exampleSort idvTable [row9, row10] = Inr [rowTen, rowNine]"
  by (simp add: getRowChangeIterator_def exampleSort_row9_row10 rowOf_row9_row10)

lemma numericCompareData_examples:
  "numericCompareData rowTen rowNine okc cols = Inr (False, 1)"
  "numericCompareData rowTen rowTen okc cols = Inr (True, 0)"
  by (simp_all add: numericCompareData_def decimalOf_def idOf_def rowNine_def rowTen_def)

lemma getPkValues_rowNine: "getPkValues rowNine cond910 = Inr [''9'']"
  by (simp add: getPkValues_def cond910_def idvTable_def idIndex_def rowNine_def)

lemma numericKeyEnv_fields:
  "UseBinlogForCompare numericKeyEnv"
  "sort_Slice numericKeyEnv = exampleSort"
  "downstream_GetRows numericKeyEnv c = Inr [Inr rowNine, Inr rowTen]"
  "CompareData numericKeyEnv = numericCompareData"
  by (simp_all add: numericKeyEnv_def exEnv_def)

lemma validateInsertAndUpdateRows_numericKeyEnv:
  "validateInsertAndUpdateRows numericKeyEnv [row9, row10] cond910 = Some (Inr [[''9'']])"
proof -
  have up: "upstreamRowsIterator numericKeyEnv [row9, row10] cond910
              = Inr [Inr rowTen, Inr rowNine]"
    by (simp add: upstreamRowsIterator_def numericKeyEnv_fields cond910_def
        getRowChangeIterator_row9_row10)
  have "validateLoop numericKeyEnv cond910 okc cols None [Inr rowTen, Inr rowNine] None
          [Inr rowNine, Inr rowTen] [] = Some (Inr [[''9'']])" for okc cols
    apply (subst validateLoop.simps)
    apply (simp add: fetch_def numericKeyEnv_fields numericCompareData_examples)
    apply (subst validateLoop.simps)
    apply (simp add: fetch_def numericKeyEnv_fields numericCompareData_examples)
    apply (subst validateLoop.simps)
    apply (simp add: fetch_def getPkValues_rowNine)
    done
  then show ?thesis
    by (simp add: validateInsertAndUpdateRows_def up numericKeyEnv_fields)
qed

text \<open>
  C10, as stated, fails in three ways. A row change with fewer values than the table
  has columns makes \<open>getRowChangeIterator\<close> panic at \<open>r.data[c.Offset]\<close>, and so do two
  row changes whose \<open>pk\<close> slices have different lengths, at \<open>right.pk[idx]\<close> in the
  closure: no row is returned. And the order of the rows is not the one the merge-join
  needs for a numeric primary key: with the rows 9 and 10 in the batch and the same two
  rows downstream, returned in the order of the key, the upstream rows come in the
  order 10, 9 and the row 9 is reported as failed.
\<close>

theorem getRowChangeIterator_counterexample:
  "getRowChangeIterator (sort_Slice exEnv) idvTable [shortRow] = Inl (Panic ''index out of range'')
   \<and> getRowChangeIterator (sort_Slice exEnv) idvTable [onePk, twoPk]
       = Inl (Panic ''index out of range'')
   \<and> getRowChangeIterator (sort_Slice numericKeyEnv) idvTable [row9, row10]
       = Inr [rowTen, rowNine]
   \<and> downstream_GetRows numericKeyEnv cond910 = Inr [Inr rowNine, Inr rowTen]
   \<and> validateInsertAndUpdateRows numericKeyEnv [row9, row10] cond910 = Some (Inr [[''9'']])"
proof -
  have s: "sort_Slice exEnv = exampleSort" by (simp add: exEnv_def)
  have 1: "getRowChangeIterator exampleSort idvTable [shortRow]
             = Inl (Panic ''index out of range'')"
    by (simp add: getRowChangeIterator_def exampleSort_def shortRow_def rowOf_def
        idvTable_def idvInfo_def at_def)
  have 2: "getRowChangeIterator exampleSort idvTable [onePk, twoPk]
             = Inl (Panic ''index out of range'')"
    by (simp add: getRowChangeIterator_def exampleSort_def lessRow_def onePk_def twoPk_def)
  show ?thesis
    by (simp add: s 1 2 numericKeyEnv_fields getRowChangeIterator_row9_row10
        validateInsertAndUpdateRows_numericKeyEnv)
qed

text \<open>
  C10, amended. Given that \<open>sort.Slice\<close> keeps the contract of its package: for every
  table and every list of row changes in which all \<open>pk\<close> slices have one length and
  every row change has a value at the offset of each column of the table,
  \<open>getRowChangeIterator\<close> returns, without panicking, exactly one row per row change:
  the rows built from a permutation of the input that is in non-decreasing order of the
  \<open>pk\<close> slices, compared component by component as byte strings, so that numeric
  primary keys are ordered as strings. The witness below shows the key \<open>"10"\<close> placed
  before \<open>"9"\<close>.
\<close>

theorem getRowChangeIterator_sorted:
  assumes "sortContract (sort_Slice env)"
    and "\<forall>r\<in>set rs. length (pk r) = n"
    and "\<forall>r\<in>set rs. \<forall>c\<in>set (InfoColumns (Info t)). 0 \<le> Offset c \<and> Offset c < int (length (data r))"
  shows "\<exists>srt it. getRowChangeIterator (sort_Slice env) t rs = Inr it \<and> length it = length rs
           \<and> mset srt = mset rs \<and> sorted (map pk srt) \<and> map Inr it = map (rowOf t) srt"
proof -
  have "(\<forall>x\<in>set rs. \<forall>y\<in>set rs. lessRow x y = Inr (pk x < pk y))
        \<and> transitiveOrdering (\<lambda>x y. pk x < pk y) (set rs)"
    using lessRow_same_length [OF assms(2)] transitiveOrdering_pk by blast
  moreover have c: "\<forall>lessFn lt xs.
        (\<forall>x\<in>set xs. \<forall>y\<in>set xs. lessFn x y = Inr (lt x y)) \<and> transitiveOrdering lt (set xs)
        \<longrightarrow> (\<exists>ys. sort_Slice env lessFn xs = Inr ys \<and> mset ys = mset xs
                  \<and> sorted_wrt (\<lambda>a b. \<not> lt b a) ys)"
    using assms(1) unfolding sortContract_def .
  note spec [OF spec [OF spec [OF c, where x = lessRow], where x = "\<lambda>x y. pk x < pk y"],
             where x = rs]
  ultimately obtain srt where srt: "sort_Slice env lessRow rs = Inr srt" "mset srt = mset rs"
    "sorted_wrt (\<lambda>a b. \<not> pk b < pk a) srt"
    by blast
  have sorted: "sorted (map pk srt)"
    using srt(3) by (simp add: sorted_map not_less)
  have "set srt = set rs" using srt(2) by (metis set_mset_mset)
  then have "\<forall>r\<in>set srt. \<forall>c\<in>set (InfoColumns (Info t)).
      0 \<le> Offset c \<and> Offset c < int (length (data r))" using assms(3) by simp
  from buildRows_total [OF this] obtain it where it: "buildRows t srt = Inr it"
    "length it = length srt" "map Inr it = map (rowOf t) srt" by auto
  have "length srt = length rs" using srt(2) by (metis size_mset)
  then show ?thesis using srt(1,2) sorted it by (auto simp: getRowChangeIterator_def)
qed

theorem getRowChangeIterator_witness:
  "getRowChangeIterator (sort_Slice exEnv) idvTable [row9, row10] = Inr [rowTen, rowNine]
   \<and> rowTen ''id'' = Some \<lparr>Data = ''10'', IsNull = False\<rparr>
   \<and> rowNine ''id'' = Some \<lparr>Data = ''9'', IsNull = False\<rparr>
   \<and> pk row10 < pk row9"
proof -
  have s: "sort_Slice exEnv = exampleSort" by (simp add: exEnv_def)
  have 0: "sortContract (sort_Slice exEnv)"
    unfolding s by (rule exampleSort_contract)
  have 1: "\<forall>r\<in>set [row9, row10]. length (pk r) = 1"
    by (simp add: row9_def row10_def)
  have 2: "\<forall>r\<in>set [row9, row10]. \<forall>c\<in>set (InfoColumns (Info idvTable)).
      0 \<le> Offset c \<and> Offset c < int (length (data r))"
    by (simp add: row9_def row10_def idvTable_def idvInfo_def)
  from getRowChangeIterator_sorted [OF 0 1 2] obtain it where
    "getRowChangeIterator (sort_Slice exEnv) idvTable [row9, row10] = Inr it"
    "length it = length [row9, row10]" by blast
  have lt: "pk row10 < pk row9"
    by (simp add: row9_def row10_def less_char_def)
  have "getRowChangeIterator (sort_Slice exEnv) idvTable [row9, row10] = Inr [rowTen, rowNine]"
    by (simp add: s getRowChangeIterator_row9_row10)
  then show ?thesis using lt by (simp add: rowNine_def rowTen_def)
qed

subsection \<open>The change accumulator\<close>

lemma fillPkValue_out_of_range:
  "\<exists>idx\<in>set idxs. int (length pkValue) \<le> idx \<Longrightarrow> isPanic (fillPkValue row idxs pkValue)"
proof (induction idxs arbitrary: pkValue)
  case Nil
  then show ?case by simp
next
  case (Cons idx idxs)
  show ?case
  proof (cases "at row idx")
    case None
    then show ?thesis by (simp add: isPanic_def)
  next
    case (Some v)
    show ?thesis
    proof (cases "0 \<le> idx \<and> idx < int (length pkValue)")
      case False
      then show ?thesis using Some by (auto simp: isPanic_def)
    next
      case True
      then have "\<exists>i\<in>set idxs. int (length (pkValue[nat idx := Sprintf_v v])) \<le> i"
        using Cons.prems by auto
      from Cons.IH [OF this] show ?thesis using Some True by simp
    qed
  qed
qed

text \<open>
  Whenever a primary-key column has an offset in the table that is not below the
  number of primary-key columns, the first row that \<open>processEventRows\<close> reads makes it
  panic.
\<close>

lemma processEventRows_offset_panics:
  assumes "GetTable (EvSchema ev) (EvTable ev) = Some t" and "PrimaryKey t = Some pkIdx"
    and "\<forall>cols\<in>set (SkippedColumns ev). length cols = 0"
    and "getRowChangeType (EventType header) = rowInsert"
    and "length (changeEventCount st) = 4"
    and "pkIndicesOf t (Columns pkIdx) = Inr pkIndices"
    and "\<exists>idx\<in>set pkIndices. int (length (Columns pkIdx)) \<le> idx"
    and "Rows ev \<noteq> []"
  shows "isPanic (processEventRows GetTable st header ev)"
proof -
  have "isPanic (fillPkValue (Rows ev ! 0) pkIndices (replicate (length (Columns pkIdx)) []))"
    using assms(7) by (intro fillPkValue_out_of_range) simp
  then obtain m where
    "fillPkValue (Rows ev ! 0) pkIndices (replicate (length (Columns pkIdx)) []) = Inl (Panic m)"
    by (auto simp: isPanic_def split: sum.splits failure.splits)
  then have "accumulateRow rowInsert ts t name pkIndices (length (Columns pkIdx)) (Rows ev ! 0) rs
               = Inl (Panic m)" for ts name rs
    by (cases rs) (simp add: accumulateRow_def)
  then have "rowsLoop rowInsert ts t name pkIndices (length (Columns pkIdx)) (Rows ev) 0 rs
               = Inl (Panic m)" for ts name rs
    using assms(8) by simp
  then show ?thesis
    using assms(1-6) by (simp add: processEventRows_def at_def changeTypeIndex_def isPanic_def)
qed

text \<open>
  C6 fails on the code. For the table \<open>t2(v, id PRIMARY KEY)\<close> the insert of the row
  \<open>("a", 7)\<close> makes \<open>processEventRows\<close> panic: \<open>pkValue\<close> has one element, and the loop
  writes \<open>pkValue[1]\<close>, the offset of \<open>id\<close> in the table. No row change is recorded for
  the key 7.
\<close>

theorem processEventRows_pk_offset_panic:
  "processEventRows (\<lambda>s n. Some vidTable) emptyDiffState insertHeader
     \<lparr>EvSchema = ''db'', EvTable = ''t2'', SkippedColumns = [], Rows = [[Some ''a'', Some ''7'']]\<rparr>
   = Inl (Panic ''index out of range'')"
  by (simp add: processEventRows_def vidTable_def idIndex_def insertHeader_def emptyDiffState_def
      changeTypeIndex_def getRowCount_def accumulateRow_def at_def)

text \<open>
  With the primary-key column first, \<open>t(id PRIMARY KEY, v)\<close>, two inserts of the key 7
  in one event leave one row change for \<open>"7"\<close>, holding the data of the second.
\<close>

lemma processEventRows_pk_first:
  "processEventRows (\<lambda>s n. Some idvTable) emptyDiffState insertHeader
     \<lparr>EvSchema = ''db'', EvTable = ''t'', SkippedColumns = [],
      Rows = [[Some ''7'', Some ''a''], [Some ''7'', Some ''b'']]\<rparr>
   = Inr \<lparr>accumulatedChanges =
            [(''db.t'', \<lparr>table = idvTable,
                rows = [(''7'', \<lparr>pk = [''7''], data = [Some ''7'', Some ''b''],
                                 theType = rowInsert, lastMeetTs = 100\<rparr>)],
                minTs = 0\<rparr>)],
          changeEventCount = [0, 1, 0, 0], pendingRowCnt = 1, pendingChangeCh = []\<rparr>"
  by (simp add: processEventRows_def idvTable_def idIndex_def insertHeader_def emptyDiffState_def
      changeTypeIndex_def getRowCount_def accumulateRow_def at_def Sprintf_v_def
      batchRowCount_def Let_def)

subsection \<open>Purge of stale fix-SQL files\<close>










subsection \<open>The IN-query builder\<close>







end
